theory Spec2Isabelle
  imports Main "HOL-Library.Log_Nat"
begin

section \<open>Numbers of the scripts\<close>

subsection \<open>BigInt division\<close>

text \<open>
  The amounts are JavaScript BigInts: unbounded integers. Their \<^verbatim>\<open>/\<close> truncates
  towards zero (HOL's \<open>div\<close> rounds down). Every divisor in the scripts is a non-zero
  constant (\<^verbatim>\<open>BigInt(1000)\<close>, \<^verbatim>\<open>BigInt(1)\<close>, \<^verbatim>\<open>BigInt(100)\<close>), so the RangeError of a
  division by zero has no branch here.
\<close>

definition bigint_div :: "int \<Rightarrow> int \<Rightarrow> int" where
  "bigint_div a b = sgn a * sgn b * (\<bar>a\<bar> div \<bar>b\<bar>)"

subsection \<open>Double-precision numbers\<close>

text \<open>
  \<^verbatim>\<open>SLIPPAGE_TOLERANCE\<close> and the expression \<^verbatim>\<open>(1 - SLIPPAGE_TOLERANCE) * 1000\<close> are
  JavaScript numbers: IEEE 754 binary64. Every finite double is a rational, and each
  operation returns the exact result rounded to the nearest double, ties to the even
  significand. \<open>fl\<close> is that rounding: \<open>binade x\<close> is the exponent \<open>e\<close> with
  \<open>2^e \<le> x < 2^(e+1)\<close>, \<open>ulp x\<close> the spacing of the doubles there (53 significant
  bits, and the fixed spacing \<open>2^-1074\<close> of the subnormal range). Overflow to
  \<^verbatim>\<open>Infinity\<close> (from \<open>2^1024\<close> on) is not represented: the operands here are a
  tolerance and 1000.
\<close>

definition binade :: "rat \<Rightarrow> int" where
  "binade x = (if 1 \<le> x then bitlen \<lfloor>x\<rfloor> - 1 else - bitlen (\<lceil>1 / x\<rceil> - 1))"

definition round_even :: "rat \<Rightarrow> int" where
  "round_even y = (let n = \<lfloor>y\<rfloor>; r = y - of_int n in
     if r < 1 / 2 then n else if 1 / 2 < r then n + 1 else if even n then n else n + 1)"

definition ulp :: "rat \<Rightarrow> rat" where
  "ulp x = power_int 2 (max (binade \<bar>x\<bar>) (- 1022) - 52)"

definition fl :: "rat \<Rightarrow> rat" where
  "fl x = (if x = 0 then 0 else sgn x * of_int (round_even (\<bar>x\<bar> / ulp x)) * ulp x)"

section \<open>Slippage-protected minimum output\<close>

text \<open>\<^verbatim>\<open>const SLIPPAGE_TOLERANCE = 0.05; // 5% slippage tolerance\<close> (both scripts).\<close>

definition SLIPPAGE_TOLERANCE :: rat where
  "SLIPPAGE_TOLERANCE = 5 / 100"

text \<open>
  \<^verbatim>\<open>index.js\<close>, \<^verbatim>\<open>main\<close>:
  \<^verbatim>\<open>const slippageFactor = BigInt(Math.floor((1 - SLIPPAGE_TOLERANCE) * 1000));\<close>
  The argument \<open>s\<close> is the tolerance as it is written in the configuration; reading the
  literal rounds it to a double, and so do the subtraction and the multiplication.
\<close>

definition slippageFactor :: "rat \<Rightarrow> int" where
  "slippageFactor s = \<lfloor>fl (fl (1 - fl s) * 1000)\<rfloor>"

text \<open>
  \<^verbatim>\<open>let amountOutMinimum = (quotedAmountOut * slippageFactor) / BigInt(1000);\<close>
\<close>

definition amountOutMinimum_quotient :: "rat \<Rightarrow> int \<Rightarrow> int" where
  "amountOutMinimum_quotient s quotedAmountOut =
     bigint_div (quotedAmountOut * slippageFactor s) 1000"

text \<open>
  \<^verbatim>\<open>if (amountOutMinimum === BigInt(0)) { amountOutMinimum = BigInt(1); }\<close>:
  the value that goes into the swap parameters.
\<close>

definition amountOutMinimum_guarded :: "rat \<Rightarrow> int \<Rightarrow> int" where
  "amountOutMinimum_guarded s quotedAmountOut =
     (let m = amountOutMinimum_quotient s quotedAmountOut in if m = 0 then 1 else m)"

text \<open>
  \<^verbatim>\<open>old_scripts/index2.js\<close>, first script, \<^verbatim>\<open>main\<close>: the division by 1000 is applied
  to the factor, before the multiplication.
  \<^verbatim>\<open>const slippageFactor = BigInt(Math.floor((1 - SLIPPAGE_TOLERANCE) * 1000)) / BigInt(1000);\<close>
  \<^verbatim>\<open>const amountOutMinimum = (quotedAmountOut * slippageFactor) / BigInt(1);\<close>
\<close>

definition slippageFactor_old :: "rat \<Rightarrow> int" where
  "slippageFactor_old s = bigint_div (slippageFactor s) 1000"

definition amountOutMinimum_old :: "rat \<Rightarrow> int \<Rightarrow> int" where
  "amountOutMinimum_old s quotedAmountOut =
     bigint_div (quotedAmountOut * slippageFactor_old s) 1"

section \<open>The chain client\<close>

subsection \<open>Configuration of \<^verbatim>\<open>index.js\<close>\<close>

type_synonym address = string

definition ZeroAddress :: address where
  "ZeroAddress = ''0x0000000000000000000000000000000000000000''"

definition SWAP_ROUTER_CONTRACT_ADDRESS :: address where
  "SWAP_ROUTER_CONTRACT_ADDRESS = ''0x3bFA4769FB09eefC5a80d6E87c3B9C650f7Ae48E''"

definition TOKEN_IN_ADDRESS :: address where
  "TOKEN_IN_ADDRESS = ''0xb0a61F0dB0a24393DaaF5DE9A4164A22f79c49d6''"

definition TOKEN_OUT_ADDRESS :: address where
  "TOKEN_OUT_ADDRESS = ''0x94a9D9AC8a22534E3FaCa9F4e7F2E2cf85d5E4C8''"

definition CHAIN_ID :: int where
  "CHAIN_ID = 11155111"

definition TRY_EXACT_OUTPUT :: bool where
  "TRY_EXACT_OUTPUT = True"

definition feeTiers :: "int list" where
  "feeTiers = [500, 3000, 10000]"

subsection \<open>Objects passed to the quoter and the router\<close>

text \<open>
  The parameter objects of the four contract methods, with the fields of the source.
  \<^verbatim>\<open>quoteParams\<close> and \<^verbatim>\<open>swapParams\<close> of \<^verbatim>\<open>main\<close> are \<open>QuoteExactInputSingle\<close> and
  \<open>ExactInputSingle\<close>; those of \<^verbatim>\<open>tryExactOutputSwap\<close> are \<open>QuoteExactOutputSingle\<close> and
  \<open>ExactOutputSingle\<close>.
\<close>

datatype request =
    QuoteExactInputSingle (tokenIn: address) (tokenOut: address) (fee: int)
      (amountIn: int) (sqrtPriceLimitX96: int)
  | QuoteExactOutputSingle (tokenIn: address) (tokenOut: address) (fee: int)
      (recipient: address) (amountOut: int) (sqrtPriceLimitX96: int)
  | ExactInputSingle (tokenIn: address) (tokenOut: address) (fee: int)
      (recipient: address) (deadline: int) (amountIn: int) (amountOutMinimum: int)
      (sqrtPriceLimitX96: int)
  | ExactOutputSingle (tokenIn: address) (tokenOut: address) (fee: int)
      (recipient: address) (deadline: int) (amountOut: int) (amountInMaximum: int)
      (sqrtPriceLimitX96: int)

subsection \<open>Interactions with the node\<close>

text \<open>
  Every \<^verbatim>\<open>await\<close> on the provider, a contract or the wallet is one interaction. The run
  records them in order: the read-only calls and the transactions handed to
  \<^verbatim>\<open>sendTransaction\<close>, with their gas limit.
\<close>

datatype call =
    Call_symbol address
  | Call_name address
  | Call_decimals address
  | Call_balanceOf address address
  | Call_getBalance address
  | Call_allowance address address address
  | Call_getPool address address int
  | Call_token0 address
  | Call_token1 address
  | Call_fee address
  | Call_liquidity address
  | Call_slot0 address
  | Call_quote request
  | Call_estimateGas request

datatype tx =
    Tx_approve address address int
  | Tx_router request

datatype event =
    Read call
  | Send tx int

text \<open>
  An interaction resolves, or rejects before anything reaches the chain, or (for a
  transaction) is mined and reverts, so that \<^verbatim>\<open>wait()\<close> rejects. The flag of a failure says
  whether its message includes \<^verbatim>\<open>'Transaction reverted without a reason'\<close>, the one
  property of an error object that \<^verbatim>\<open>executeSwap\<close> branches on.
\<close>

datatype status = Succeeds | Rejects bool | Reverts bool

text \<open>
  The node, the contracts behind it, the clock and the \<^verbatim>\<open>ethers\<close> parser are outside the
  repository: \<open>chain\<close> holds their answers. \<open>status c k\<close> is the outcome of the \<open>k\<close>-th
  interaction of the run. Balances are answers that may differ from one interaction to
  the next (\<open>rpc_balanceOf c k\<close>), since transactions of the run and of others move
  tokens. \<open>deadline_at c k\<close> is \<^verbatim>\<open>Math.floor(Date.now() / 1000 + 60 * 10)\<close> evaluated after \<open>k\<close>
  interactions. \<open>desiredOutput_units c q d\<close> is
  \<^verbatim>\<open>ethers.parseUnits((Number(ethers.formatUnits(q, d)) * 0.9).toString(), d)\<close>, \<open>None\<close> where
  \<^verbatim>\<open>parseUnits\<close> throws.
\<close>

record chain =
  status :: "nat \<Rightarrow> status"
  signer_address :: address
  rpc_symbol :: "address \<Rightarrow> string"
  rpc_name :: "address \<Rightarrow> string"
  rpc_decimals :: "address \<Rightarrow> nat"
  rpc_balanceOf :: "nat \<Rightarrow> address \<Rightarrow> address \<Rightarrow> int"
  rpc_getBalance :: "nat \<Rightarrow> address \<Rightarrow> int"
  rpc_getPool :: "address \<Rightarrow> address \<Rightarrow> int \<Rightarrow> address"
  rpc_token0 :: "address \<Rightarrow> address"
  rpc_token1 :: "address \<Rightarrow> address"
  rpc_fee :: "address \<Rightarrow> int"
  rpc_liquidity :: "address \<Rightarrow> int"
  rpc_slot0 :: "address \<Rightarrow> int \<times> int"
  rpc_quoteExactInputSingle :: "request \<Rightarrow> int"
  rpc_quoteExactOutputSingle :: "request \<Rightarrow> int"
  rpc_estimateGas :: "request \<Rightarrow> int"
  deadline_at :: "nat \<Rightarrow> int"
  desiredOutput_units :: "int \<Rightarrow> nat \<Rightarrow> int option"

text \<open>
  What the run changes: the allowances (token, owner, spender), set by a confirmed
  \<^verbatim>\<open>approve\<close> as ERC-20 defines it, and the record of interactions.
\<close>

record world =
  allowances :: "address \<Rightarrow> address \<Rightarrow> address \<Rightarrow> int"
  events :: "event list"

subsection \<open>Errors\<close>

text \<open>
  \<open>External\<close> is a rejection by the node or a contract. The others are the
  \<^verbatim>\<open>new Error(...)\<close> of the source:
  \<open>InsufficientBalance\<close>: \<^verbatim>\<open>`Insufficient ${symbol} balance: ${balance} < ${amount}`\<close>;
  \<open>NoPoolFound\<close>: \<^verbatim>\<open>`No pool exists for ${tokenIn.symbol}/${tokenOut.symbol} with any standard fee tier`\<close>;
  \<open>MetadataUnavailable\<close>: \<^verbatim>\<open>`Failed to retrieve token info for ${tokenAddress}`\<close>;
  \<open>BalancesUnavailable\<close>: \<^verbatim>\<open>'Failed to check balances'\<close>;
  \<open>BalanceUnavailable\<close>: \<^verbatim>\<open>`Failed to check ${symbol} balance`\<close>;
  \<open>ApprovalFailed\<close>: \<^verbatim>\<open>'Token approval failed'\<close>;
  \<open>QuoteFailed\<close>: \<^verbatim>\<open>'Failed to get quote for swap'\<close>;
  \<open>SwapFailed\<close>: \<^verbatim>\<open>'Swap transaction failed'\<close>;
  \<open>ExactOutputFailed\<close>: \<^verbatim>\<open>'ExactOutputSingle swap failed'\<close>;
  \<open>FallbackDisabled\<close>: \<^verbatim>\<open>'Swap failed and TRY_EXACT_OUTPUT is disabled'\<close>;
  \<open>ParseUnitsFailed\<close>: what \<^verbatim>\<open>ethers.parseUnits\<close> throws;
  \<open>FormatUnitsFailed\<close>: what \<^verbatim>\<open>ethers.formatUnits\<close> throws;
  \<open>InvalidTime\<close>: the RangeError of \<^verbatim>\<open>toISOString\<close>.
\<close>

datatype error =
    External bool
  | InsufficientBalance int int
  | NoPoolFound
  | MetadataUnavailable address
  | BalancesUnavailable
  | BalanceUnavailable string
  | ApprovalFailed
  | QuoteFailed
  | SwapFailed
  | ExactOutputFailed
  | FallbackDisabled
  | ParseUnitsFailed
  | FormatUnitsFailed
  | InvalidTime

subsection \<open>Sequencing, \<^verbatim>\<open>try\<close>/\<^verbatim>\<open>catch\<close> and \<^verbatim>\<open>Promise.all\<close>\<close>

text \<open>
  An \<^verbatim>\<open>async\<close> function is a function of the world that returns its value, or the error it
  throws, and the world it leaves. What was sent before a throw stays sent.
\<close>

type_synonym 'a run = "world \<Rightarrow> (error + 'a) \<times> world"

definition ret :: "'a \<Rightarrow> 'a run" where
  "ret v w = (Inr v, w)"

definition throw :: "error \<Rightarrow> 'a run" where
  "throw e w = (Inl e, w)"

definition await :: "'a run \<Rightarrow> ('a \<Rightarrow> 'b run) \<Rightarrow> 'b run" where
  "await m f w = (case m w of (Inl e, w') \<Rightarrow> (Inl e, w') | (Inr x, w') \<Rightarrow> f x w')"

definition try_catch :: "'a run \<Rightarrow> (error \<Rightarrow> 'a run) \<Rightarrow> 'a run" where
  "try_catch m h w = (case m w of (Inl e, w') \<Rightarrow> h e w' | (Inr x, w') \<Rightarrow> (Inr x, w'))"

text \<open>
  \<^verbatim>\<open>Promise.all([a, b])\<close>: both calls are issued, in the order written; the result
  rejects when one of them rejects (with the error of the first in that order).
\<close>

definition promise_all :: "'a run \<Rightarrow> 'b run \<Rightarrow> ('a \<times> 'b) run" where
  "promise_all m1 m2 w =
     (case m1 w of (r1, w1) \<Rightarrow>
        (case m2 w1 of (r2, w2) \<Rightarrow>
           (case r1 of
              Inl e \<Rightarrow> (Inl e, w2)
            | Inr x \<Rightarrow> (case r2 of Inl e \<Rightarrow> (Inl e, w2) | Inr y \<Rightarrow> (Inr (x, y), w2)))))"

subsection \<open>Reads and transactions\<close>

definition read :: "chain \<Rightarrow> call \<Rightarrow> 'a \<Rightarrow> 'a run" where
  "read c q v w =
     (let w' = w\<lparr>events := events w @ [Read q]\<rparr> in
      case status c (length (events w)) of
        Succeeds \<Rightarrow> (Inr v, w')
      | Rejects b \<Rightarrow> (Inl (External b), w')
      | Reverts b \<Rightarrow> (Inl (External b), w'))"

definition call_balanceOf :: "chain \<Rightarrow> address \<Rightarrow> address \<Rightarrow> int run" where
  "call_balanceOf c token owner w =
     read c (Call_balanceOf token owner) (rpc_balanceOf c (length (events w)) token owner) w"

definition call_getBalance :: "chain \<Rightarrow> address \<Rightarrow> int run" where
  "call_getBalance c owner w =
     read c (Call_getBalance owner) (rpc_getBalance c (length (events w)) owner) w"

definition call_allowance :: "chain \<Rightarrow> address \<Rightarrow> address \<Rightarrow> address \<Rightarrow> int run" where
  "call_allowance c token owner spender w =
     read c (Call_allowance token owner spender) (allowances w token owner spender) w"

definition call_getPool :: "chain \<Rightarrow> address \<Rightarrow> address \<Rightarrow> int \<Rightarrow> address run" where
  "call_getPool c a b f = read c (Call_getPool a b f) (rpc_getPool c a b f)"

definition now_deadline :: "chain \<Rightarrow> int run" where
  "now_deadline c w = (Inr (deadline_at c (length (events w))), w)"

text \<open>
  The effect of a confirmed transaction. \<^verbatim>\<open>approve(spender, amount)\<close> sets the
  allowance of the sender for the spender. The token movements of a swap show in the
  later answers of \<open>rpc_balanceOf\<close>.
\<close>

fun apply_tx :: "address \<Rightarrow> tx \<Rightarrow> world \<Rightarrow> world" where
  "apply_tx sender (Tx_approve token spender amount) w =
     w\<lparr>allowances := (allowances w)
        (token := (allowances w token)
           (sender := (allowances w token sender)(spender := amount)))\<rparr>"
| "apply_tx sender (Tx_router r) w = w"

text \<open>
  \<^verbatim>\<open>const response = await wallet.sendTransaction({...tx, gasLimit}); const receipt = await response.wait();\<close>
  The value returned stands for \<^verbatim>\<open>receipt.hash\<close>: the position of the transaction in the
  record.
\<close>

definition sendTransaction :: "chain \<Rightarrow> address \<Rightarrow> tx \<Rightarrow> int \<Rightarrow> nat run" where
  "sendTransaction c sender t gasLimit w =
     (let k = length (events w); w' = w\<lparr>events := events w @ [Send t gasLimit]\<rparr> in
      case status c k of
        Succeeds \<Rightarrow> (Inr k, apply_tx sender t w')
      | Rejects b \<Rightarrow> (Inl (External b), w')
      | Reverts b \<Rightarrow> (Inl (External b), w'))"

subsection \<open>Formatting for the log\<close>

text \<open>
  \<^verbatim>\<open>function formatBigInt(value, decimals) { return ethers.formatUnits(value, decimals); }\<close>
  The strings go to the log. What a run depends on is that \<^verbatim>\<open>ethers.formatUnits\<close> throws
  for more than 80 decimals (the limit of its fixed-point format), and a token contract
  may report up to 255. Its other limit, a value of 512 bits, is out of reach of the
  amounts of a run: answers of contracts (256 bits), results of \<^verbatim>\<open>parseUnits\<close> (which has
  the same limit), their differences and their products with a per-mille factor.
\<close>

definition formatBigInt :: "int \<Rightarrow> nat \<Rightarrow> unit run" where
  "formatBigInt v decimals' = (if 80 < decimals' then throw FormatUnitsFailed else ret ())"

text \<open>
  A \<^verbatim>\<open>log\<close> call, or an object literal, that formats these amounts in this order.
\<close>

fun log_formatted :: "(int \<times> nat) list \<Rightarrow> unit run" where
  "log_formatted [] = ret ()"
| "log_formatted ((v, decimals') # rest) =
     await (formatBigInt v decimals') (\<lambda>_. log_formatted rest)"

text \<open>
  \<^verbatim>\<open>new Date(ms).toISOString()\<close> throws a RangeError outside the range of \<^verbatim>\<open>Date\<close>,
  8640000000000000 milliseconds either side of the epoch.
\<close>

definition toISOString :: "int \<Rightarrow> unit run" where
  "toISOString ms = (if 8640000000000000 < \<bar>ms\<bar> then throw InvalidTime else ret ())"

section \<open>The functions of \<^verbatim>\<open>index.js\<close>\<close>

subsection \<open>\<^verbatim>\<open>fetchTokenInfo\<close>, \<^verbatim>\<open>logBalances\<close>\<close>

record tokenInfo =
  chainId :: int
  address :: address
  decimals :: nat
  symbol :: string
  name :: string
  isToken :: bool

definition fetchTokenInfo :: "chain \<Rightarrow> address \<Rightarrow> tokenInfo run" where
  "fetchTokenInfo c tokenAddress =
     try_catch
       (await
          (promise_all (read c (Call_symbol tokenAddress) (rpc_symbol c tokenAddress))
             (promise_all (read c (Call_name tokenAddress) (rpc_name c tokenAddress))
                (read c (Call_decimals tokenAddress) (rpc_decimals c tokenAddress))))
          (\<lambda>(symbol', name', decimals').
             ret \<lparr>chainId = CHAIN_ID, address = tokenAddress, decimals = decimals',
                  symbol = symbol', name = name', isToken = True\<rparr>))
       (\<lambda>error. throw (MetadataUnavailable tokenAddress))"

text \<open>
  The three balances are read, then formatted for the log (the native balance with 18
  decimals, each token balance with the decimals of its token), inside the \<^verbatim>\<open>try\<close>. The
  result is \<^verbatim>\<open>{ tokenInBalance, tokenOutBalance, ethBalance }\<close>.
\<close>

definition logBalances :: "chain \<Rightarrow> address \<Rightarrow> tokenInfo \<Rightarrow> tokenInfo \<Rightarrow> (int \<times> int \<times> int) run" where
  "logBalances c wallet tokenIn' tokenOut' =
     try_catch
       (await
          (promise_all (call_balanceOf c (address tokenIn') wallet)
             (promise_all (call_balanceOf c (address tokenOut') wallet)
                (call_getBalance c wallet)))
          (\<lambda>(tokenInBalance, tokenOutBalance, ethBalance).
             await (log_formatted [(ethBalance, 18), (tokenInBalance, decimals tokenIn'),
                                   (tokenOutBalance, decimals tokenOut')])
               (\<lambda>_. ret (tokenInBalance, tokenOutBalance, ethBalance))))
       (\<lambda>error. throw BalancesUnavailable)"

subsection \<open>\<^verbatim>\<open>checkBalance\<close>, \<^verbatim>\<open>approveToken\<close>\<close>

definition checkBalance :: "chain \<Rightarrow> tokenInfo \<Rightarrow> address \<Rightarrow> int run" where
  "checkBalance c tokenInfo wallet =
     try_catch
       (await (call_balanceOf c (address tokenInfo) wallet) (\<lambda>balance.
          await (formatBigInt balance (decimals tokenInfo)) (\<lambda>_. ret balance)))
       (\<lambda>error. throw (BalanceUnavailable (symbol tokenInfo)))"

text \<open>
  The two results of \<^verbatim>\<open>approveToken\<close>: \<^verbatim>\<open>{ success: true, message: "Already approved" }\<close> and
  \<^verbatim>\<open>{ success: true, txHash: receipt.hash }\<close>.
\<close>

datatype approval = AlreadyApproved | Approved nat

text \<open>
  The body of the \<^verbatim>\<open>try\<close> block of \<^verbatim>\<open>approveToken\<close>. Its first statement logs the
  formatted amount; the message of the insufficient-balance error and the two log lines
  of the allowance format amounts too.
\<close>

definition approveToken_try :: "chain \<Rightarrow> tokenInfo \<Rightarrow> int \<Rightarrow> address \<Rightarrow> approval run" where
  "approveToken_try c tokenInfo amount wallet =
     await (formatBigInt amount (decimals tokenInfo)) (\<lambda>_.
     await (checkBalance c tokenInfo wallet) (\<lambda>balance.
       if balance < amount then
         await (log_formatted [(balance, decimals tokenInfo), (amount, decimals tokenInfo)])
           (\<lambda>_. throw (InsufficientBalance balance amount))
       else
         await (call_allowance c (address tokenInfo) wallet SWAP_ROUTER_CONTRACT_ADDRESS)
           (\<lambda>allowance.
           await (formatBigInt allowance (decimals tokenInfo)) (\<lambda>_.
             if allowance \<ge> amount then ret AlreadyApproved
             else
               await (sendTransaction c wallet
                        (Tx_approve (address tokenInfo) SWAP_ROUTER_CONTRACT_ADDRESS amount) 100000)
                 (\<lambda>hash.
                   await (call_allowance c (address tokenInfo) wallet SWAP_ROUTER_CONTRACT_ADDRESS)
                     (\<lambda>newAllowance.
                       await (formatBigInt newAllowance (decimals tokenInfo))
                         (\<lambda>_. ret (Approved hash))))))))"

text \<open>
  Its \<^verbatim>\<open>catch\<close> logs the error and throws \<^verbatim>\<open>new Error('Token approval failed')\<close> in its
  place.
\<close>

definition approveToken :: "chain \<Rightarrow> tokenInfo \<Rightarrow> int \<Rightarrow> address \<Rightarrow> approval run" where
  "approveToken c tokenInfo amount wallet =
     try_catch (approveToken_try c tokenInfo amount wallet) (\<lambda>error. throw ApprovalFailed)"

subsection \<open>\<^verbatim>\<open>getPoolInfo\<close>\<close>

text \<open>
  The loop \<^verbatim>\<open>for (const fee of feeTiers)\<close> with its \<^verbatim>\<open>break\<close>: the result is the pair
  \<^verbatim>\<open>(poolAddress, usedFee)\<close>, or \<open>None\<close> when \<^verbatim>\<open>poolAddress\<close> is still \<^verbatim>\<open>null\<close> after the loop.
\<close>

fun tryFeeTiers :: "chain \<Rightarrow> address \<Rightarrow> address \<Rightarrow> int list \<Rightarrow> (address \<times> int) option run" where
  "tryFeeTiers c a b [] = ret None"
| "tryFeeTiers c a b (fee' # fees) =
     await (call_getPool c a b fee') (\<lambda>address'.
       if address' \<noteq> ZeroAddress then ret (Some (address', fee'))
       else tryFeeTiers c a b fees)"

definition lower_char :: "char \<Rightarrow> char" where
  "lower_char ch =
     (let n = (of_char ch :: nat) in if 65 \<le> n \<and> n \<le> 90 then char_of (n + 32) else ch)"

definition toLowerCase :: "string \<Rightarrow> string" where
  "toLowerCase = map lower_char"

text \<open>
  The first part of the \<^verbatim>\<open>try\<close> block of \<^verbatim>\<open>getPoolInfo\<close>: the two loops, and the
  test \<^verbatim>\<open>if (poolAddress === null || poolAddress === ethers.ZeroAddress)\<close> with its
  \<^verbatim>\<open>throw\<close>.
\<close>

definition locatePool :: "chain \<Rightarrow> tokenInfo \<Rightarrow> tokenInfo \<Rightarrow> address run" where
  "locatePool c tokenIn' tokenOut' =
     await (tryFeeTiers c (address tokenIn') (address tokenOut') feeTiers) (\<lambda>found.
       await (case found of
                None \<Rightarrow> tryFeeTiers c (address tokenOut') (address tokenIn') feeTiers
              | Some p \<Rightarrow> ret (Some p))
         (\<lambda>found'.
           case found' of
             None \<Rightarrow> throw NoPoolFound
           | Some (poolAddress, usedFee) \<Rightarrow>
               if poolAddress = ZeroAddress then throw NoPoolFound else ret poolAddress))"

text \<open>
  The second part: the pool contract is read, and the object
  \<^verbatim>\<open>{ poolContract, token0, token1, fee, liquidity, slot0, tokenInIsToken0 }\<close> is returned,
  the contract given by its address, \<^verbatim>\<open>slot0\<close> by \<^verbatim>\<open>sqrtPriceX96\<close> and \<^verbatim>\<open>tick\<close>. The \<^verbatim>\<open>fee\<close>
  (here \<open>poolFee\<close>) is the one the pool contract reports.
\<close>

record poolInfo =
  poolContract :: address
  token0 :: address
  token1 :: address
  poolFee :: int
  liquidity :: int
  slot0 :: "int \<times> int"
  tokenInIsToken0 :: bool

definition poolDetails :: "chain \<Rightarrow> tokenInfo \<Rightarrow> address \<Rightarrow> poolInfo run" where
  "poolDetails c tokenIn' poolAddress =
     await
       (promise_all (read c (Call_token0 poolAddress) (rpc_token0 c poolAddress))
          (promise_all (read c (Call_token1 poolAddress) (rpc_token1 c poolAddress))
             (promise_all (read c (Call_fee poolAddress) (rpc_fee c poolAddress))
                (promise_all
                   (read c (Call_liquidity poolAddress) (rpc_liquidity c poolAddress))
                   (read c (Call_slot0 poolAddress) (rpc_slot0 c poolAddress))))))
       (\<lambda>(token0', token1', fee', liquidity', slot0').
          ret \<lparr>poolContract = poolAddress, token0 = token0', token1 = token1',
               poolFee = fee', liquidity = liquidity', slot0 = slot0',
               tokenInIsToken0 = (toLowerCase token0' = toLowerCase (address tokenIn'))\<rparr>)"

definition getPoolInfo_try :: "chain \<Rightarrow> tokenInfo \<Rightarrow> tokenInfo \<Rightarrow> poolInfo run" where
  "getPoolInfo_try c tokenIn' tokenOut' =
     await (locatePool c tokenIn' tokenOut') (poolDetails c tokenIn')"

text \<open>Its \<^verbatim>\<open>catch\<close> logs the error and throws it again.\<close>

definition getPoolInfo :: "chain \<Rightarrow> tokenInfo \<Rightarrow> tokenInfo \<Rightarrow> poolInfo run" where
  "getPoolInfo c tokenIn' tokenOut' =
     try_catch (getPoolInfo_try c tokenIn' tokenOut') (\<lambda>error. throw error)"

subsection \<open>\<^verbatim>\<open>getQuote\<close>, \<^verbatim>\<open>executeSwap\<close>, \<^verbatim>\<open>tryExactOutputSwap\<close>\<close>

text \<open>
  \<^verbatim>\<open>getQuote(quoterContract, params, tokenOut)\<close>: the quote is formatted for the log inside
  the \<^verbatim>\<open>try\<close>.
\<close>

definition getQuote :: "chain \<Rightarrow> request \<Rightarrow> tokenInfo \<Rightarrow> int run" where
  "getQuote c params tokenOut' =
     try_catch
       (await (read c (Call_quote params) (rpc_quoteExactInputSingle c params)) (\<lambda>amountOut'.
          await (formatBigInt amountOut' (decimals tokenOut')) (\<lambda>_. ret amountOut')))
       (\<lambda>error. throw QuoteFailed)"

text \<open>
  \<^verbatim>\<open>error.message && error.message.includes('Transaction reverted without a reason')\<close>
\<close>

fun reverted_without_reason :: "error \<Rightarrow> bool" where
  "reverted_without_reason (External b) = b"
| "reverted_without_reason _ = False"

text \<open>
  The diagnostics of \<^verbatim>\<open>executeSwap\<close>: the pool of the parameters, its liquidity, and a
  quote for a tenth of the amount, with the smaller amount and its quote formatted for
  the log. Each of its two \<^verbatim>\<open>catch\<close> blocks only logs.
\<close>

definition diagnostics :: "chain \<Rightarrow> request \<Rightarrow> tokenInfo \<Rightarrow> tokenInfo \<Rightarrow> unit run" where
  "diagnostics c params tokenIn' tokenOut' =
     try_catch
       (await (call_getPool c (tokenIn params) (tokenOut params) (fee params)) (\<lambda>poolAddress.
          await (read c (Call_liquidity poolAddress) (rpc_liquidity c poolAddress)) (\<lambda>liquidity'.
            let smallerAmount = bigint_div (amountIn params * 10) 100;
                smallerParams = QuoteExactInputSingle (tokenIn params) (tokenOut params)
                                  (fee params) smallerAmount 0
            in await (formatBigInt smallerAmount (decimals tokenIn')) (\<lambda>_.
                 try_catch
                   (await (read c (Call_quote smallerParams)
                             (rpc_quoteExactInputSingle c smallerParams))
                      (\<lambda>smallerQuote.
                         await (formatBigInt smallerQuote (decimals tokenOut')) (\<lambda>_. ret ())))
                   (\<lambda>smallerQuoteError. ret ())))))
       (\<lambda>diagnosticError. ret ())"

text \<open>
  The inner \<^verbatim>\<open>try\<close> estimates the gas, adds 30% and sends; its \<^verbatim>\<open>catch\<close>, reached also when
  the sending or the confirmation fails, sends with the fixed limit.
\<close>

definition executeSwap ::
  "chain \<Rightarrow> request \<Rightarrow> address \<Rightarrow> tokenInfo \<Rightarrow> tokenInfo \<Rightarrow> nat run" where
  "executeSwap c params signer tokenIn' tokenOut' =
     try_catch
       (try_catch
          (await (read c (Call_estimateGas params) (rpc_estimateGas c params)) (\<lambda>gasEstimate.
             sendTransaction c signer (Tx_router params) (bigint_div (gasEstimate * 130) 100)))
          (\<lambda>gasError. sendTransaction c signer (Tx_router params) 1000000))
       (\<lambda>error.
          await (if reverted_without_reason error
                 then diagnostics c params tokenIn' tokenOut' else ret ())
            (\<lambda>_. throw SwapFailed))"

text \<open>
  \<^verbatim>\<open>const slippageFactor = BigInt(Math.floor((1 + SLIPPAGE_TOLERANCE) * 1000));\<close>
\<close>

definition slippageFactor_up :: "rat \<Rightarrow> int" where
  "slippageFactor_up s = \<lfloor>fl (fl (1 + fl s) * 1000)\<rfloor>"

text \<open>
  \<open>quotedAmountOut\<close> stands for the argument \<^verbatim>\<open>desiredOutputAmount\<close>, the number that
  \<^verbatim>\<open>main\<close> computes from it; see \<open>desiredOutput_units\<close>. The three amounts of the quote
  are formatted for the log before the swap parameters are built.
\<close>

definition tryExactOutputSwap ::
  "chain \<Rightarrow> int \<Rightarrow> int \<Rightarrow> tokenInfo \<Rightarrow> tokenInfo \<Rightarrow> address \<Rightarrow> nat run" where
  "tryExactOutputSwap c poolInfo_fee quotedAmountOut tokenIn' tokenOut' signer =
     try_catch
       (case desiredOutput_units c quotedAmountOut (decimals tokenOut') of
          None \<Rightarrow> throw ParseUnitsFailed
        | Some amountOut' \<Rightarrow>
            let quoteParams = QuoteExactOutputSingle (address tokenIn') (address tokenOut')
                                poolInfo_fee signer amountOut' 0
            in await (read c (Call_quote quoteParams) (rpc_quoteExactOutputSingle c quoteParams))
                 (\<lambda>amountInMaximum'.
                   let adjustedAmountInMaximum =
                         bigint_div (amountInMaximum' * slippageFactor_up SLIPPAGE_TOLERANCE) 1000
                   in await (log_formatted
                               [(amountOut', decimals tokenOut'),
                                (amountInMaximum', decimals tokenIn'),
                                (adjustedAmountInMaximum, decimals tokenIn')]) (\<lambda>_.
                      await (now_deadline c) (\<lambda>deadline'.
                        let swapParams = ExactOutputSingle (address tokenIn') (address tokenOut')
                                           poolInfo_fee signer deadline' amountOut'
                                           adjustedAmountInMaximum 0
                        in await (approveToken c tokenIn' adjustedAmountInMaximum signer) (\<lambda>_.
                             sendTransaction c signer (Tx_router swapParams) 1000000)))))
       (\<lambda>error. throw ExactOutputFailed)"

subsection \<open>\<^verbatim>\<open>main\<close>\<close>

text \<open>
  What \<^verbatim>\<open>main\<close> returns: the transaction, the amount given and the amount received
  (unformatted), and whether it was the \<^verbatim>\<open>exactOutputSingle\<close> swap that went through.
\<close>

datatype outcome = Swapped nat int int | Swapped_exactOutputSingle nat int int

text \<open>
  The argument stands for \<^verbatim>\<open>swapAmount\<close>: \<open>swapAmount_units d\<close> is
  \<^verbatim>\<open>ethers.parseUnits(swapAmount.toString(), d)\<close>, \<open>None\<close> where it throws. For the
  configured \<^verbatim>\<open>SWAP_AMOUNT = 10\<close> it is \<open>10 * 10^d\<close>.
\<close>

definition SWAP_AMOUNT_units :: "nat \<Rightarrow> int option" where
  "SWAP_AMOUNT_units d = Some (10 * 10 ^ d)"

text \<open>
  The log lines of \<^verbatim>\<open>main\<close> that format amounts or the deadline are in their places: the
  quote details, the final swap parameters (with
  \<^verbatim>\<open>new Date(swapParams.deadline * 1000).toISOString()\<close>), the swap results and the object
  returned, and \<^verbatim>\<open>Number(formatBigInt(quotedAmountOut, tokenOut.decimals)) * 0.9\<close> in the
  \<^verbatim>\<open>catch\<close> of the swap.
\<close>

definition main :: "chain \<Rightarrow> (nat \<Rightarrow> int option) \<Rightarrow> outcome run" where
  "main c swapAmount_units =
     try_catch
       (await (fetchTokenInfo c TOKEN_IN_ADDRESS) (\<lambda>tokenIn'.
        await (fetchTokenInfo c TOKEN_OUT_ADDRESS) (\<lambda>tokenOut'.
        await (logBalances c (signer_address c) tokenIn' tokenOut') (\<lambda>initialBalances.
        await (case swapAmount_units (decimals tokenIn') of
                 None \<Rightarrow> throw ParseUnitsFailed
               | Some amountIn' \<Rightarrow> ret amountIn') (\<lambda>amountIn'.
        await (approveToken c tokenIn' amountIn' (signer_address c)) (\<lambda>_.
        await (getPoolInfo c tokenIn' tokenOut') (\<lambda>pool.
        let fee' = poolFee pool;
            quoteParams = QuoteExactInputSingle (address tokenIn') (address tokenOut')
                            fee' amountIn' 0
        in
        await (getQuote c quoteParams tokenOut') (\<lambda>quotedAmountOut.
        let amountOutMinimum' = amountOutMinimum_guarded SLIPPAGE_TOLERANCE quotedAmountOut
        in
        await (log_formatted [(amountIn', decimals tokenIn'),
                              (quotedAmountOut, decimals tokenOut'),
                              (amountOutMinimum', decimals tokenOut')]) (\<lambda>_.
        await (now_deadline c) (\<lambda>deadline'.
        let swapParams = ExactInputSingle (address tokenIn') (address tokenOut') fee'
                           (signer_address c) deadline' amountIn' amountOutMinimum' 0
        in
        await (log_formatted [(amountIn', decimals tokenIn'),
                              (amountOutMinimum', decimals tokenOut')]) (\<lambda>_.
        await (toISOString (deadline' * 1000)) (\<lambda>_.
        try_catch
          (await (executeSwap c swapParams (signer_address c) tokenIn' tokenOut') (\<lambda>receipt.
           await (logBalances c (signer_address c) tokenIn' tokenOut') (\<lambda>finalBalances.
           await (log_formatted
                    [(fst initialBalances - fst finalBalances, decimals tokenIn'),
                     (fst (snd finalBalances) - fst (snd initialBalances), decimals tokenOut'),
                     (amountIn', decimals tokenIn'),
                     (fst (snd finalBalances) - fst (snd initialBalances), decimals tokenOut')])
             (\<lambda>_.
             ret (Swapped receipt amountIn'
                    (fst (snd finalBalances) - fst (snd initialBalances)))))))
          (\<lambda>swapError.
             if TRY_EXACT_OUTPUT then
               await (formatBigInt quotedAmountOut (decimals tokenOut')) (\<lambda>_.
               await (tryExactOutputSwap c fee' quotedAmountOut tokenIn' tokenOut'
                        (signer_address c)) (\<lambda>receipt.
               await (logBalances c (signer_address c) tokenIn' tokenOut') (\<lambda>finalBalances.
               await (log_formatted
                        [(fst initialBalances - fst finalBalances, decimals tokenIn'),
                         (fst (snd finalBalances) - fst (snd initialBalances), decimals tokenOut'),
                         (fst initialBalances - fst finalBalances, decimals tokenIn'),
                         (fst (snd finalBalances) - fst (snd initialBalances), decimals tokenOut')])
                 (\<lambda>_.
                 ret (Swapped_exactOutputSingle receipt
                        (fst initialBalances - fst finalBalances)
                        (fst (snd finalBalances) - fst (snd initialBalances)))))))
             else throw FallbackDisabled)))))))))))))
       (\<lambda>error. throw error)"

section \<open>Example chains\<close>

text \<open>
  A node that answers every call, an input token of 18 decimals and an output token of
  6, a wallet that holds 100 input tokens and has approved nothing, and a factory
  without pools. The quoter answers 150.25 output tokens.
\<close>

definition empty_chain :: chain where
  "empty_chain =
     \<lparr>status = (\<lambda>k. Succeeds),
      signer_address = ''0xf39Fd6e51aad88F6F4ce6aB8827279cffFb92266'',
      rpc_symbol = (\<lambda>a. ''TKN''),
      rpc_name = (\<lambda>a. ''Token''),
      rpc_decimals = (\<lambda>a. if a = TOKEN_OUT_ADDRESS then 6 else 18),
      rpc_balanceOf = (\<lambda>k token owner. 100 * 10 ^ 18),
      rpc_getBalance = (\<lambda>k owner. 10 ^ 18),
      rpc_getPool = (\<lambda>a b f. ZeroAddress),
      rpc_token0 = (\<lambda>p. TOKEN_OUT_ADDRESS),
      rpc_token1 = (\<lambda>p. TOKEN_IN_ADDRESS),
      rpc_fee = (\<lambda>p. 3000),
      rpc_liquidity = (\<lambda>p. 10 ^ 24),
      rpc_slot0 = (\<lambda>p. (2 ^ 96, 0)),
      rpc_quoteExactInputSingle = (\<lambda>r. 150250000),
      rpc_quoteExactOutputSingle = (\<lambda>r. 9 * 10 ^ 18),
      rpc_estimateGas = (\<lambda>r. 150000),
      deadline_at = (\<lambda>k. 1700000600),
      desiredOutput_units = (\<lambda>q d. Some (q * 9 div 10))\<rparr>"

definition world0 :: world where
  "world0 = \<lparr>allowances = (\<lambda>token owner spender. 0), events = []\<rparr>"

definition pool_A :: address where
  "pool_A = ''0x00000000000000000000000000000000000000A1''"

definition pool_B :: address where
  "pool_B = ''0x00000000000000000000000000000000000000B2''"

text \<open>A factory with one pool for the configured pair, at the tier 3000, in both orders.\<close>

definition one_pool_chain :: chain where
  "one_pool_chain =
     empty_chain\<lparr>rpc_getPool := (\<lambda>a b f.
        if {a, b} = {TOKEN_IN_ADDRESS, TOKEN_OUT_ADDRESS} \<and> f = 3000 then pool_A
        else ZeroAddress)\<rparr>"

text \<open>
  A lookup table that is not symmetric: a pool of fee 3000 at the tier 3000 under the
  order (in, out), another of fee 500 at the tier 500 under the order (out, in).
\<close>

definition lopsided_chain :: chain where
  "lopsided_chain =
     empty_chain\<lparr>rpc_getPool := (\<lambda>a b f.
        if a = TOKEN_IN_ADDRESS \<and> b = TOKEN_OUT_ADDRESS \<and> f = 3000 then pool_A
        else if a = TOKEN_OUT_ADDRESS \<and> b = TOKEN_IN_ADDRESS \<and> f = 500 then pool_B
        else ZeroAddress),
      rpc_fee := (\<lambda>p. if p = pool_B then 500 else 3000)\<rparr>"

definition token_in :: tokenInfo where
  "token_in = \<lparr>chainId = CHAIN_ID, address = TOKEN_IN_ADDRESS, decimals = 18,
                symbol = ''TKN'', name = ''Token'', isToken = True\<rparr>"

definition token_out :: tokenInfo where
  "token_out = \<lparr>chainId = CHAIN_ID, address = TOKEN_OUT_ADDRESS, decimals = 6,
                 symbol = ''TKN'', name = ''Token'', isToken = True\<rparr>"

text \<open>The same node for a wallet that holds no tokens.\<close>

definition penniless_chain :: chain where
  "penniless_chain = empty_chain\<lparr>rpc_balanceOf := (\<lambda>k token owner. 0)\<rparr>"

text \<open>
  A node on which the gas estimate and the swap with the fixed gas limit of that run
  (interactions 21 and 22) fail with \<^verbatim>\<open>'Transaction reverted without a reason'\<close>.
\<close>

definition failing_swap_chain :: chain where
  "failing_swap_chain =
     one_pool_chain\<lparr>status := (\<lambda>k. if k = 21 \<or> k = 22 then Reverts True else Succeeds)\<rparr>"

section \<open>What a run shows\<close>

text \<open>The approval transactions handed to the wallet so far.\<close>

fun is_approval :: "event \<Rightarrow> bool" where
  "is_approval (Send (Tx_approve token spender amount) gasLimit) = True"
| "is_approval _ = False"

definition approvals :: "world \<Rightarrow> nat" where
  "approvals w = length (filter is_approval (events w))"

text \<open>
  Two invocations in succession,
  \<^verbatim>\<open>await approveToken(tokenInfo, amount, wallet); await approveToken(tokenInfo, amount, wallet);\<close>
\<close>

definition approveToken_twice :: "chain \<Rightarrow> tokenInfo \<Rightarrow> int \<Rightarrow> address \<Rightarrow> approval run" where
  "approveToken_twice c tokenInfo amount wallet =
     await (approveToken c tokenInfo amount wallet)
       (\<lambda>_. approveToken c tokenInfo amount wallet)"

text \<open>The factory lookups so far, in order.\<close>

fun query_of :: "event \<Rightarrow> (address \<times> address \<times> int) option" where
  "query_of (Read (Call_getPool a b f)) = Some (a, b, f)"
| "query_of _ = None"

definition getPool_queries :: "world \<Rightarrow> (address \<times> address \<times> int) list" where
  "getPool_queries w = List.map_filter query_of (events w)"

text \<open>
  The pool locator as the specification words it: the tiers 500, 3000, 10000 with the
  order (in, out), then the same tiers with the order reversed; the first lookup that is
  not the zero address wins.
\<close>

definition lookups :: "address \<Rightarrow> address \<Rightarrow> (address \<times> address \<times> int) list" where
  "lookups a b = [(a, b, 500), (a, b, 3000), (a, b, 10000), (b, a, 500), (b, a, 3000), (b, a, 10000)]"

definition is_pool :: "chain \<Rightarrow> address \<times> address \<times> int \<Rightarrow> bool" where
  "is_pool c q = (case q of (a, b, f) \<Rightarrow> rpc_getPool c a b f \<noteq> ZeroAddress)"

definition first_pool :: "chain \<Rightarrow> address \<Rightarrow> address \<Rightarrow> (address \<times> address \<times> int) option" where
  "first_pool c a b = find (is_pool c) (lookups a b)"

text \<open>
  The parameter objects that reached the quoter (a static call), the gas estimator or
  the router (a transaction), in order.
\<close>

fun event_request :: "event \<Rightarrow> request option" where
  "event_request (Read (Call_quote r)) = Some r"
| "event_request (Read (Call_estimateGas r)) = Some r"
| "event_request (Send (Tx_router r) gasLimit) = Some r"
| "event_request _ = None"

definition requests :: "world \<Rightarrow> request list" where
  "requests w = List.map_filter event_request (events w)"

definition all_requests :: "(request \<Rightarrow> bool) \<Rightarrow> world \<Rightarrow> bool" where
  "all_requests Q w = list_all Q (requests w)"

definition no_price_limit :: "request \<Rightarrow> bool" where
  "no_price_limit r = (sqrtPriceLimitX96 r = 0)"

text \<open>The minimum-output bound of the parameters of an exact-input swap is at least 1.\<close>

fun bound_at_least_1 :: "request \<Rightarrow> bool" where
  "bound_at_least_1 (ExactInputSingle i out f rc d a m l) = (1 \<le> m)"
| "bound_at_least_1 _ = True"

text \<open>
  The quotes of the diagnostics and of the fallback, and the swap of the fallback, are
  built inside the functions: \<open>Q\<close> has to hold of them whatever their amounts.
\<close>

definition admits_fallback :: "(request \<Rightarrow> bool) \<Rightarrow> bool" where
  "admits_fallback Q \<longleftrightarrow>
     (\<forall>i out f a. Q (QuoteExactInputSingle i out f a 0))
     \<and> (\<forall>i out f rc a. Q (QuoteExactOutputSingle i out f rc a 0))
     \<and> (\<forall>i out f rc d a m. Q (ExactOutputSingle i out f rc d a m 0))"

text \<open>A run never leaves the set of worlds \<open>P\<close>.\<close>

definition keeps :: "(world \<Rightarrow> bool) \<Rightarrow> 'a run \<Rightarrow> bool" where
  "keeps P m = (\<forall>w. P w \<longrightarrow> P (snd (m w)))"

section \<open>Properties of the numbers\<close>

lemma bigint_div_nonneg: "0 \<le> a \<Longrightarrow> 0 < b \<Longrightarrow> bigint_div a b = a div b"
  by (cases "a = 0") (simp_all add: bigint_div_def)

lemma round_even_le: "y \<le> of_int n \<Longrightarrow> round_even y \<le> n"
  unfolding round_even_def Let_def
  by (auto simp: floor_le_iff le_floor_iff)

lemma round_even_ge: "of_int n \<le> y \<Longrightarrow> n \<le> round_even y"
proof -
  assume "of_int n \<le> y"
  then have "n \<le> \<lfloor>y\<rfloor>" by (simp add: le_floor_iff)
  then show ?thesis unfolding round_even_def Let_def by auto
qed

lemma round_even_err: "\<bar>of_int (round_even y) - y\<bar> \<le> 1 / 2"
proof -
  have "of_int \<lfloor>y\<rfloor> \<le> y" "y < of_int \<lfloor>y\<rfloor> + 1" by linarith+
  then show ?thesis unfolding round_even_def Let_def by (auto simp: abs_le_iff)
qed

lemma ulp_pos: "0 < ulp x"
  by (simp add: ulp_def)

lemma fl_nonneg: "0 \<le> x \<Longrightarrow> 0 \<le> fl x"
  using round_even_ge [of 0 "\<bar>x\<bar> / ulp x"] ulp_pos [of x]
  by (simp add: fl_def)

lemma fl_nonpos: assumes "x \<le> 0" shows "fl x \<le> 0"
proof (cases "x = 0")
  case True
  then show ?thesis by (simp add: fl_def)
next
  case False
  have "0 \<le> \<bar>x\<bar> / ulp x" using ulp_pos [of x] by simp
  then have "0 \<le> round_even (\<bar>x\<bar> / ulp x)" using round_even_ge [of 0] by simp
  then have "0 \<le> (of_int (round_even (\<bar>x\<bar> / ulp x)) :: rat) * ulp x"
    using ulp_pos [of x] by simp
  moreover have "sgn x = -1" using assms False by simp
  ultimately show ?thesis using False by (simp add: fl_def)
qed

text \<open>
  \<open>binade x\<close> is the binary exponent of \<open>x\<close>; \<open>fl x\<close> is a multiple of \<open>ulp x\<close> at most
  half of it away from \<open>x\<close>, and the rounding never crosses a multiple of a power of two
  at least \<open>ulp x\<close>.
\<close>

lemma binade_lower: assumes "0 < x" shows "power_int 2 (binade x) \<le> x"
proof (cases "1 \<le> x")
  case True
  then have pos: "0 < \<lfloor>x\<rfloor>" by simp
  from bitlen_bounds [OF pos] have "2 ^ nat (bitlen \<lfloor>x\<rfloor> - 1) \<le> \<lfloor>x\<rfloor>" by simp
  then have "(of_int (2 ^ nat (bitlen \<lfloor>x\<rfloor> - 1)) :: rat) \<le> of_int \<lfloor>x\<rfloor>"
    by (simp only: of_int_le_iff)
  also have "\<dots> \<le> x" by simp
  finally have "(2::rat) ^ nat (bitlen \<lfloor>x\<rfloor> - 1) \<le> x" by simp
  moreover have "1 \<le> bitlen \<lfloor>x\<rfloor>" using pos by (auto simp: bitlen_alt_def)
  ultimately show ?thesis using True by (simp add: binade_def power_int_def)
next
  case False
  define n where "n = \<lceil>1 / x\<rceil> - 1"
  have "1 < 1 / x" using False assms by simp
  then have "1 < \<lceil>1 / x\<rceil>" by (simp add: less_ceiling_iff)
  then have pos: "0 < n" by (simp add: n_def)
  from bitlen_bounds [OF pos] have "n < 2 ^ nat (bitlen n)" by simp
  then have "\<lceil>1 / x\<rceil> \<le> 2 ^ nat (bitlen n)" by (simp add: n_def)
  then have "1 / x \<le> of_int (2 ^ nat (bitlen n))" by (simp only: ceiling_le_iff)
  then have "1 / x \<le> 2 ^ nat (bitlen n)" by simp
  then have "1 \<le> 2 ^ nat (bitlen n) * x" using assms by (simp add: field_simps)
  then have "1 / 2 ^ nat (bitlen n) \<le> x" by (simp add: field_simps)
  moreover have "1 \<le> bitlen n" using pos by (auto simp: bitlen_alt_def)
  ultimately show ?thesis using False
    by (simp add: binade_def n_def power_int_def inverse_eq_divide power_one_over)
qed

lemma binade_upper: assumes "0 < x" shows "x < power_int 2 (binade x + 1)"
proof (cases "1 \<le> x")
  case True
  then have pos: "0 < \<lfloor>x\<rfloor>" by simp
  from bitlen_bounds [OF pos] have "\<lfloor>x\<rfloor> + 1 \<le> 2 ^ nat (bitlen \<lfloor>x\<rfloor>)" by simp
  then have "(of_int (\<lfloor>x\<rfloor> + 1) :: rat) \<le> of_int (2 ^ nat (bitlen \<lfloor>x\<rfloor>))"
    by (simp only: of_int_le_iff)
  moreover have "x < of_int (\<lfloor>x\<rfloor> + 1)" by linarith
  ultimately have "x < 2 ^ nat (bitlen \<lfloor>x\<rfloor>)" by simp
  moreover have "0 \<le> bitlen \<lfloor>x\<rfloor>" by (rule bitlen_nonneg)
  ultimately show ?thesis using True by (simp add: binade_def power_int_def)
next
  case False
  define n where "n = \<lceil>1 / x\<rceil> - 1"
  have "1 < 1 / x" using False assms by simp
  then have "1 < \<lceil>1 / x\<rceil>" by (simp add: less_ceiling_iff)
  then have pos: "0 < n" by (simp add: n_def)
  have k: "1 \<le> bitlen n" using pos by (auto simp: bitlen_alt_def)
  from bitlen_bounds [OF pos] have "2 ^ nat (bitlen n - 1) \<le> n" by simp
  then have "2 ^ nat (bitlen n - 1) < \<lceil>1 / x\<rceil>" by (simp add: n_def)
  then have "of_int (2 ^ nat (bitlen n - 1)) < 1 / x" by (simp only: less_ceiling_iff)
  then have "2 ^ nat (bitlen n - 1) < 1 / x" by simp
  then have "2 ^ nat (bitlen n - 1) * x < 1" using assms by (simp add: field_simps)
  then have "x < 1 / 2 ^ nat (bitlen n - 1)" by (simp add: field_simps)
  moreover have "power_int (2::rat) (- bitlen n + 1) = 1 / 2 ^ nat (bitlen n - 1)"
    using k by (auto simp add: power_int_def inverse_eq_divide power_one_over
        nat_diff_distrib)
  ultimately show ?thesis using False by (simp add: binade_def n_def)
qed

lemma binade_less: assumes "0 < x" "x < power_int 2 k" shows "binade x < k"
proof (rule ccontr)
  assume "\<not> binade x < k"
  then have "k \<le> binade x" by simp
  then have "power_int (2::rat) k \<le> power_int 2 (binade x)"
    by (intro power_int_increasing) simp_all
  with binade_lower [OF assms(1)] assms(2) show False by simp
qed


lemma fl_pos_eq: "0 < x \<Longrightarrow> fl x = of_int (round_even (x / ulp x)) * ulp x"
  by (simp add: fl_def)

lemma ulp_pos_eq: "0 < x \<Longrightarrow> ulp x = power_int 2 (max (binade x) (- 1022) - 52)"
  by (simp add: ulp_def)

lemma grid_point:
  assumes "j \<le> k"
  shows "of_int m * power_int (2::rat) k = of_int (m * 2 ^ nat (k - j)) * power_int 2 j"
proof -
  have "power_int (2::rat) k = power_int 2 ((k - j) + j)" by simp
  also have "\<dots> = power_int 2 (k - j) * power_int 2 j"
    by (subst power_int_add) simp_all
  also have "power_int (2::rat) (k - j) = 2 ^ nat (k - j)"
    using assms by (simp add: power_int_def)
  finally show ?thesis by simp
qed

lemma fl_le_grid:
  assumes "0 < x" and "x \<le> of_int m * power_int 2 k"
    and "max (binade x) (- 1022) - 52 \<le> k"
  shows "fl x \<le> of_int m * power_int 2 k"
proof -
  define j where "j = max (binade x) (- 1022) - 52"
  define N where "N = m * 2 ^ nat (k - j)"
  have u: "ulp x = power_int 2 j" using assms(1) by (simp add: ulp_pos_eq j_def)
  have c: "of_int m * power_int (2::rat) k = of_int N * ulp x"
    unfolding N_def u using assms(3) by (intro grid_point) (simp add: j_def)
  have "x / ulp x \<le> of_int N"
    using assms(2) ulp_pos [of x] unfolding c by (simp add: field_simps)
  then have "round_even (x / ulp x) \<le> N" by (rule round_even_le)
  then have "(of_int (round_even (x / ulp x)) :: rat) \<le> of_int N" by simp
  then have "of_int (round_even (x / ulp x)) * ulp x \<le> of_int N * ulp x"
    using ulp_pos [of x] by (simp add: mult_right_mono)
  then show ?thesis using assms(1) by (simp add: fl_pos_eq c)
qed

lemma fl_ge_grid:
  assumes "0 < x" and "of_int m * power_int 2 k \<le> x"
    and "max (binade x) (- 1022) - 52 \<le> k"
  shows "of_int m * power_int 2 k \<le> fl x"
proof -
  define j where "j = max (binade x) (- 1022) - 52"
  define N where "N = m * 2 ^ nat (k - j)"
  have u: "ulp x = power_int 2 j" using assms(1) by (simp add: ulp_pos_eq j_def)
  have c: "of_int m * power_int (2::rat) k = of_int N * ulp x"
    unfolding N_def u using assms(3) by (intro grid_point) (simp add: j_def)
  have "of_int N \<le> x / ulp x"
    using assms(2) ulp_pos [of x] unfolding c by (simp add: field_simps)
  then have "N \<le> round_even (x / ulp x)" by (rule round_even_ge)
  then have "(of_int N :: rat) \<le> of_int (round_even (x / ulp x))" by simp
  then have "of_int N * ulp x \<le> of_int (round_even (x / ulp x)) * ulp x"
    using ulp_pos [of x] by (simp add: mult_right_mono)
  then show ?thesis using assms(1) by (simp add: fl_pos_eq c)
qed

lemma fl_err: assumes "0 < x" shows "\<bar>fl x - x\<bar> \<le> ulp x / 2"
proof -
  have "fl x - x = (of_int (round_even (x / ulp x)) - x / ulp x) * ulp x"
    using assms ulp_pos [of x] by (simp add: fl_pos_eq field_simps)
  then have "\<bar>fl x - x\<bar> = \<bar>of_int (round_even (x / ulp x)) - x / ulp x\<bar> * ulp x"
    using ulp_pos [of x] by (simp add: abs_mult)
  also have "\<dots> \<le> (1 / 2) * ulp x"
    using round_even_err [of "x / ulp x"] ulp_pos [of x] by (intro mult_right_mono) simp_all
  finally show ?thesis by simp
qed

lemma fl_le_1: assumes "x \<le> 1" shows "fl x \<le> 1"
proof (cases "0 < x")
  case True
  have "x < power_int 2 1" using assms by simp
  then have "binade x < 1" using True by (rule binade_less [rotated])
  then have "fl x \<le> of_int 1 * power_int 2 0"
    using True assms by (intro fl_le_grid) simp_all
  then show ?thesis by simp
next
  case False
  then have "fl x \<le> 0" by (intro fl_nonpos) simp
  then show ?thesis by simp
qed

lemma slippageFactor_nonneg: assumes "s \<le> 1" shows "0 \<le> slippageFactor s"
proof -
  have "0 \<le> 1 - fl s" using fl_le_1 [OF assms] by simp
  then have "0 \<le> fl (1 - fl s) * 1000" using fl_nonneg by simp
  then have "0 \<le> fl (fl (1 - fl s) * 1000)" by (rule fl_nonneg)
  then show ?thesis by (simp add: slippageFactor_def)
qed

lemma slippageFactor_le_1000: assumes "0 \<le> s" shows "slippageFactor s \<le> 1000"
proof -
  define y where "y = fl (1 - fl s) * 1000"
  have "1 - fl s \<le> 1" using fl_nonneg [OF assms] by simp
  then have y: "y \<le> 1000" using fl_le_1 by (simp add: y_def)
  have "fl y \<le> 1000"
  proof (cases "0 < y")
    case True
    have "y < power_int 2 10" using y by simp
    then have "binade y < 10" using True by (rule binade_less [rotated])
    then have "fl y \<le> of_int 1000 * power_int 2 0"
      using True y by (intro fl_le_grid) simp_all
    then show ?thesis by simp
  next
    case False
    then have "fl y \<le> 0" by (intro fl_nonpos) simp
    then show ?thesis by simp
  qed
  then have "\<lfloor>fl y\<rfloor> \<le> 1000" by (simp add: floor_le_iff)
  then show ?thesis by (simp add: slippageFactor_def y_def)
qed


lemma fl_one: "fl 1 = 1"
  by code_simp

lemma fl_ge_tiny: assumes "1 / 2 ^ 53 \<le> s" "s \<le> 1" shows "1 / 2 ^ 53 \<le> fl s"
proof (cases "s < 1")
  case True
  have pos: "0 < s" using assms(1) by (rule less_le_trans [rotated]) simp
  have "s < power_int 2 0" using True by simp
  then have "binade s < 0" using pos by (rule binade_less [rotated])
  moreover have "of_int 1 * power_int (2::rat) (- 53) = 1 / 2 ^ 53"
    by (simp add: power_int_def inverse_eq_divide power_one_over)
  ultimately have "of_int 1 * power_int 2 (- 53) \<le> fl s"
    using pos assms(1) by (intro fl_ge_grid) simp_all
  then show ?thesis by (simp add: power_int_def inverse_eq_divide power_one_over)
next
  case False
  then have "s = 1" using assms(2) by simp
  then show ?thesis by (simp add: fl_one)
qed

lemma fl_below_one: assumes "x \<le> 1 - 1 / 2 ^ 53" shows "fl x \<le> 1 - 1 / 2 ^ 53"
proof (cases "0 < x")
  case True
  have c: "of_int (2 ^ 53 - 1) * power_int (2::rat) (- 53) = 1 - 1 / 2 ^ 53"
    by (simp add: power_int_def inverse_eq_divide power_one_over)
  have "x < power_int 2 0" using assms by simp
  then have "binade x < 0" using True by (rule binade_less [rotated])
  then have "fl x \<le> of_int (2 ^ 53 - 1) * power_int 2 (- 53)"
    using True assms unfolding c [symmetric] by (intro fl_le_grid) simp_all
  then show ?thesis unfolding c .
next
  case False
  then have "fl x \<le> 0" by (intro fl_nonpos) simp
  then show ?thesis by simp
qed

lemma slippageFactor_lt_1000:
  assumes "1 / 2 ^ 53 \<le> s" "s \<le> 1" shows "slippageFactor s < 1000"
proof -
  define y where "y = fl (1 - fl s) * 1000"
  have "1 - fl s \<le> 1 - 1 / 2 ^ 53" using fl_ge_tiny [OF assms] by simp
  then have "fl (1 - fl s) \<le> 1 - 1 / 2 ^ 53" by (rule fl_below_one)
  then have y: "y \<le> 1000 - 1000 / 2 ^ 53" by (simp add: y_def)
  have "fl y < 1000"
  proof (cases "0 < y")
    case True
    have "y < power_int 2 10" using y by simp
    then have "binade y < 10" using True by (rule binade_less [rotated])
    then have "max (binade y) (- 1022) - 52 \<le> - 43" by simp
    then have "power_int (2::rat) (max (binade y) (- 1022) - 52) \<le> power_int 2 (- 43)"
      by (intro power_int_increasing) simp_all
    then have "ulp y \<le> 1 / 2 ^ 43"
      using True by (simp add: ulp_pos_eq power_int_def inverse_eq_divide power_one_over)
    moreover have "fl y - y \<le> ulp y / 2" using fl_err [OF True] by linarith
    ultimately have "fl y \<le> y + (1 / 2 ^ 43) / 2" by simp
    also have "\<dots> \<le> 1000 - 1000 / 2 ^ 53 + (1 / 2 ^ 43) / 2" using y by simp
    also have "\<dots> < 1000" by simp
    finally show ?thesis .
  next
    case False
    then have "fl y \<le> 0" by (intro fl_nonpos) simp
    then show ?thesis by simp
  qed
  then have "\<lfloor>fl y\<rfloor> < 1000" by (simp add: floor_less_iff)
  then show ?thesis by (simp add: slippageFactor_def y_def)
qed

lemma slippageFactor_configured: "slippageFactor SLIPPAGE_TOLERANCE = 950"
  by code_simp

lemma bigint_div_small: "0 \<le> a \<Longrightarrow> a < b \<Longrightarrow> bigint_div a b = 0"
  by (cases "a = 0") (simp_all add: bigint_div_def)

lemma amountOutMinimum_quotient_div:
  assumes "s \<le> 1" "0 \<le> q"
  shows "amountOutMinimum_quotient s q = (q * slippageFactor s) div 1000"
  using slippageFactor_nonneg [OF assms(1)] assms(2)
  by (simp add: amountOutMinimum_quotient_def bigint_div_nonneg)

lemma amountOutMinimum_guarded_ge_1:
  assumes "s \<le> 1" and "0 \<le> q"
  shows "1 \<le> amountOutMinimum_guarded s q"
proof -
  have "0 \<le> (q * slippageFactor s) div 1000"
    using slippageFactor_nonneg [OF assms(1)] assms(2) by (simp add: pos_imp_zdiv_nonneg_iff)
  then have "0 \<le> amountOutMinimum_quotient s q"
    using amountOutMinimum_quotient_div [OF assms] by simp
  then show ?thesis by (auto simp: amountOutMinimum_guarded_def Let_def)
qed




lemma amountOutMinimum_quotient_floor:
  assumes "s \<le> 1" and "0 \<le> q"
  shows "amountOutMinimum_quotient s q = \<lfloor>of_int q * (of_int (slippageFactor s) / 1000 :: rat)\<rfloor>"
proof -
  have "\<lfloor>of_int q * (of_int (slippageFactor s) / 1000 :: rat)\<rfloor>
      = \<lfloor>(of_int (q * slippageFactor s) :: rat) / of_int 1000\<rfloor>" by simp
  also have "\<dots> = (q * slippageFactor s) div 1000" by (rule floor_divide_of_int_eq)
  finally show ?thesis using amountOutMinimum_quotient_div [OF assms] by simp
qed

lemma amountOutMinimum_configured:
  assumes "0 \<le> q"
  shows "amountOutMinimum_quotient SLIPPAGE_TOLERANCE q = \<lfloor>of_int q * (1 - SLIPPAGE_TOLERANCE)\<rfloor>"
proof -
  have "SLIPPAGE_TOLERANCE \<le> 1" by (simp add: SLIPPAGE_TOLERANCE_def)
  then have "amountOutMinimum_quotient SLIPPAGE_TOLERANCE q
      = \<lfloor>of_int q * (of_int (slippageFactor SLIPPAGE_TOLERANCE) / 1000 :: rat)\<rfloor>"
    using assms by (rule amountOutMinimum_quotient_floor)
  moreover have "(of_int (slippageFactor SLIPPAGE_TOLERANCE) / 1000 :: rat) = 1 - SLIPPAGE_TOLERANCE"
    unfolding slippageFactor_configured by (simp add: SLIPPAGE_TOLERANCE_def)
  ultimately show ?thesis by (simp only:)
qed

section \<open>The minimum-output bound\<close>




text \<open>
  A tolerance written in thousandths has \<open>(1 - s) * 1000\<close> a whole number \<open>n\<close>, and can
  lose a thousandth to the rounding of the doubles: \<^verbatim>\<open>(1 - 0.066) * 1000\<close> is
  \<^verbatim>\<open>933.9999999999999\<close>, so that \<open>F\<close> is 933 and not 934.
\<close>

lemma amountOutMinimum_three_decimal_tolerance:
  "amountOutMinimum_guarded (66 / 1000) 1000 = 933 \<and> \<lfloor>of_int 1000 * (1 - 66 / 1000 :: rat)\<rfloor> = 934"
  by code_simp

text \<open>
  C5. In \<^verbatim>\<open>index.js\<close>, for every quoted amount from 0 on and every tolerance up to 1,
  the bound that goes into the swap parameters is at least 1: a quotient of 0 is
  replaced by 1.
\<close>

theorem amountOutMinimum_at_least_1:
  assumes "s \<le> 1" and "0 \<le> q"
  shows "1 \<le> amountOutMinimum_guarded s q
    \<and> (amountOutMinimum_quotient s q = 0 \<longrightarrow> amountOutMinimum_guarded s q = 1)"
  using amountOutMinimum_guarded_ge_1 [OF assms]
  by (simp add: amountOutMinimum_guarded_def Let_def)

theorem amountOutMinimum_at_least_1_witness:
  "SLIPPAGE_TOLERANCE \<le> 1 \<and> (0::int) \<le> 0 \<and> amountOutMinimum_quotient SLIPPAGE_TOLERANCE 0 = 0
   \<and> amountOutMinimum_guarded SLIPPAGE_TOLERANCE 0 = 1"
proof -
  have s: "SLIPPAGE_TOLERANCE \<le> 1" by (simp add: SLIPPAGE_TOLERANCE_def)
  have "amountOutMinimum_quotient SLIPPAGE_TOLERANCE 0 = 0"
    by (simp add: amountOutMinimum_quotient_def bigint_div_def)
  with s amountOutMinimum_at_least_1 [OF s, of 0] show ?thesis by simp
qed

text \<open>
  C7. A quote of 150.25 output tokens is \<open>15025 * 10^(d-2)\<close> units of a token with
  \<open>d \<ge> 2\<close> decimals. With the configured 5% tolerance the bound is 142.7375 tokens
  truncated to \<open>d\<close> decimals, \<open>floor (142.7375 * 10^d)\<close> units: 142737500 units for
  \<open>d = 6\<close>.
\<close>

theorem amountOutMinimum_example:
  assumes "2 \<le> d"
  shows "amountOutMinimum_guarded SLIPPAGE_TOLERANCE (15025 * 10 ^ (d - 2))
    = \<lfloor>(1427375 / 10000 :: rat) * 10 ^ d\<rfloor>"
proof -
  define k where "k = d - 2"
  have d: "d = k + 2" using assms by (simp add: k_def)
  have "(1427375 / 10000 :: rat) * 10 ^ d = of_int (1427375 * 10 ^ k) / of_int 100"
    by (simp add: d)
  then have r: "\<lfloor>(1427375 / 10000 :: rat) * 10 ^ d\<rfloor> = (1427375 * 10 ^ k) div 100"
    by (simp only: floor_divide_of_int_eq)
  have "(15025 * 10 ^ k * 950 :: int) = 10 * (1427375 * 10 ^ k)" by simp
  then have "(15025 * 10 ^ k * 950 :: int) div 1000 = (10 * (1427375 * 10 ^ k)) div (10 * 100)"
    by simp
  also have "\<dots> = (1427375 * 10 ^ k) div 100" by (simp only: div_mult_mult1_if) simp
  finally have l: "(15025 * 10 ^ k * 950 :: int) div 1000 = (1427375 * 10 ^ k) div 100" .
  have "(1427375 * 1 :: int) \<le> 1427375 * 10 ^ k" by (intro mult_left_mono) simp_all
  then have "(1427375 :: int) div 100 \<le> (1427375 * 10 ^ k) div 100"
    by (intro zdiv_mono1) simp_all
  then have nz: "(1427375 * 10 ^ k :: int) div 100 \<noteq> 0" by simp
  have "bigint_div (15025 * 10 ^ k * 950) 1000 = (15025 * 10 ^ k * 950) div 1000"
    by (intro bigint_div_nonneg) simp_all
  then have "amountOutMinimum_quotient SLIPPAGE_TOLERANCE (15025 * 10 ^ k)
      = (1427375 * 10 ^ k) div 100"
    unfolding amountOutMinimum_quotient_def slippageFactor_configured l .
  then show ?thesis using nz unfolding amountOutMinimum_guarded_def Let_def r k_def by simp
qed

theorem amountOutMinimum_example_witness:
  "(2::nat) \<le> 6 \<and> amountOutMinimum_guarded SLIPPAGE_TOLERANCE (15025 * 10 ^ (6 - 2)) = 142737500"
  using amountOutMinimum_example [of 6] by simp

text \<open>
  C8 (amended). In the first script of \<^verbatim>\<open>old_scripts/index2.js\<close>, for every tolerance
  \<open>s\<close> with \<open>2^-53 \<le> s \<le> 1\<close> and every quoted amount, \<open>amountOutMinimum\<close> is 0: the
  factor is below 1000, and its BigInt division by 1000 is 0.
\<close>

theorem amountOutMinimum_old_zero:
  assumes "1 / 2 ^ 53 \<le> s" and "s \<le> 1"
  shows "amountOutMinimum_old s q = 0"
proof -
  have "bigint_div (slippageFactor s) 1000 = 0"
    using slippageFactor_nonneg [OF assms(2)] slippageFactor_lt_1000 [OF assms]
    by (rule bigint_div_small)
  then show ?thesis by (simp add: amountOutMinimum_old_def slippageFactor_old_def bigint_div_def)
qed

theorem amountOutMinimum_old_zero_witness:
  "1 / 2 ^ 53 \<le> SLIPPAGE_TOLERANCE \<and> SLIPPAGE_TOLERANCE \<le> 1
   \<and> amountOutMinimum_old SLIPPAGE_TOLERANCE 150250000 = 0"
proof -
  have r: "1 / 2 ^ 53 \<le> SLIPPAGE_TOLERANCE" "SLIPPAGE_TOLERANCE \<le> 1"
    by (simp_all add: SLIPPAGE_TOLERANCE_def)
  from r amountOutMinimum_old_zero [OF r, of 150250000] show ?thesis by simp
qed

text \<open>
  C8 as stated, for every \<open>s\<close> with \<open>0 < s \<le> 1\<close>, fails at \<open>s = 2^-60\<close>: there
  \<^verbatim>\<open>1 - s\<close> rounds to 1, the factor is \<open>1000 / 1000 = 1\<close>, and the bound is the quote.
\<close>

theorem amountOutMinimum_old_tiny_tolerance:
  "(0::rat) < 1 / 2 ^ 60 \<and> (1 / 2 ^ 60 :: rat) \<le> 1 \<and> amountOutMinimum_old (1 / 2 ^ 60) 1000 = 1000"
  by code_simp

section \<open>The approver\<close>

lemmas run_defs = ret_def throw_def await_def try_catch_def promise_all_def

lemma read_Succeeds:
  "status c (length (events w)) = Succeeds \<Longrightarrow>
     read c q v w = (Inr v, w\<lparr>events := events w @ [Read q]\<rparr>)"
  by (simp add: read_def)

lemma formatBigInt_ok: "decimals' \<le> 80 \<Longrightarrow> formatBigInt v decimals' = ret ()"
  by (simp add: formatBigInt_def)

lemma formatBigInt_throws: "80 < decimals' \<Longrightarrow> formatBigInt v decimals' = throw FormatUnitsFailed"
  by (simp add: formatBigInt_def)

text \<open>
  C3 (amended). When the balance read returns less than the required amount, the
  approver fails with \<^verbatim>\<open>'Token approval failed'\<close>, and it hands no transaction
  to the wallet and reads no allowance. For a token of at most 80 decimals the balance check
  in the \<^verbatim>\<open>try\<close> block throws the insufficient-balance error, the \<^verbatim>\<open>catch\<close> of the
  approver logs it and throws \<^verbatim>\<open>'Token approval failed'\<close> in its place, and the only
  interaction is the balance read. For a token of more than 80 decimals the first statement
  of the \<^verbatim>\<open>try\<close> block, which formats the amount for the log, throws: the \<^verbatim>\<open>catch\<close> replaces
  that error in the same way, and there is no interaction at all.
\<close>

theorem approveToken_insufficient_balance:
  assumes "status c (length (events w)) = Succeeds"
    and "rpc_balanceOf c (length (events w)) (address tokenInfo) wallet < amount"
  shows "approveToken_try c tokenInfo amount wallet w =
           (if decimals tokenInfo \<le> 80
            then (Inl (InsufficientBalance
                         (rpc_balanceOf c (length (events w)) (address tokenInfo) wallet) amount),
                  w\<lparr>events := events w @ [Read (Call_balanceOf (address tokenInfo) wallet)]\<rparr>)
            else (Inl FormatUnitsFailed, w))
       \<and> approveToken c tokenInfo amount wallet w =
           (Inl ApprovalFailed,
            if decimals tokenInfo \<le> 80
            then w\<lparr>events := events w @ [Read (Call_balanceOf (address tokenInfo) wallet)]\<rparr>
            else w)"
  using assms
  by (simp add: approveToken_def approveToken_try_def checkBalance_def call_balanceOf_def
      formatBigInt_def read_Succeeds run_defs)

text \<open>
  A wallet with balance 0 asked to approve 1 unit, of a token of 18 decimals and of a
  token of 81.
\<close>

theorem approveToken_insufficient_balance_witness:
  "status penniless_chain (length (events world0)) = Succeeds
   \<and> rpc_balanceOf penniless_chain (length (events world0)) (address token_in)
        (signer_address penniless_chain) < 1
   \<and> decimals token_in \<le> 80
   \<and> fst (approveToken_try penniless_chain token_in 1 (signer_address penniless_chain) world0)
        = Inl (InsufficientBalance 0 1)
   \<and> fst (approveToken penniless_chain token_in 1 (signer_address penniless_chain) world0)
        = Inl ApprovalFailed
   \<and> events (snd (approveToken penniless_chain token_in 1 (signer_address penniless_chain) world0))
        = [Read (Call_balanceOf TOKEN_IN_ADDRESS (signer_address penniless_chain))]
   \<and> approveToken_try penniless_chain (token_in\<lparr>decimals := 81\<rparr>) 1
        (signer_address penniless_chain) world0 = (Inl FormatUnitsFailed, world0)
   \<and> approveToken penniless_chain (token_in\<lparr>decimals := 81\<rparr>) 1
        (signer_address penniless_chain) world0 = (Inl ApprovalFailed, world0)"
proof -
  have s: "status penniless_chain (length (events world0)) = Succeeds"
    by (simp add: penniless_chain_def empty_chain_def)
  have b: "rpc_balanceOf penniless_chain (length (events world0)) (address token_in)
        (signer_address penniless_chain) < 1"
    by (simp add: penniless_chain_def)
  have z: "rpc_balanceOf penniless_chain (length (events world0)) (address token_in)
        (signer_address penniless_chain) = 0"
    by (simp add: penniless_chain_def)
  have d: "decimals token_in \<le> 80" by (simp add: token_in_def)
  have b': "rpc_balanceOf penniless_chain (length (events world0))
        (address (token_in\<lparr>decimals := 81\<rparr>)) (signer_address penniless_chain) < 1"
    by (simp add: penniless_chain_def)
  have low: "fst (approveToken_try penniless_chain token_in 1 (signer_address penniless_chain) world0)
        = Inl (InsufficientBalance 0 1)
   \<and> fst (approveToken penniless_chain token_in 1 (signer_address penniless_chain) world0)
        = Inl ApprovalFailed
   \<and> events (snd (approveToken penniless_chain token_in 1 (signer_address penniless_chain) world0))
        = [Read (Call_balanceOf TOKEN_IN_ADDRESS (signer_address penniless_chain))]"
    using approveToken_insufficient_balance [OF s b] d
    unfolding z by (simp add: world0_def token_in_def)
  have high: "approveToken_try penniless_chain (token_in\<lparr>decimals := 81\<rparr>) 1
        (signer_address penniless_chain) world0 = (Inl FormatUnitsFailed, world0)
   \<and> approveToken penniless_chain (token_in\<lparr>decimals := 81\<rparr>) 1
        (signer_address penniless_chain) world0 = (Inl ApprovalFailed, world0)"
    using approveToken_insufficient_balance [OF s b'] by simp
  from s b d low high show ?thesis by simp
qed

text \<open>
  C3 as stated has the approver fail with the insufficient-balance error itself. For
  a wallet with balance 0 asked to approve 1 unit, the error of the approver is
  \<open>ApprovalFailed\<close>.
\<close>

theorem approveToken_fails_with_ApprovalFailed:
  "rpc_balanceOf penniless_chain 0 TOKEN_IN_ADDRESS (signer_address penniless_chain) < 1
   \<and> fst (approveToken penniless_chain token_in 1 (signer_address penniless_chain) world0)
       = Inl ApprovalFailed
   \<and> fst (approveToken penniless_chain token_in 1 (signer_address penniless_chain) world0)
       \<noteq> Inl (InsufficientBalance 0 1)"
  by code_simp

lemmas approveToken_defs = approveToken_def approveToken_try_def checkBalance_def
  call_balanceOf_def call_allowance_def sendTransaction_def read_def formatBigInt_def
  log_formatted.simps run_defs Let_def

lemma approveToken_approvals:
  "approvals (snd (approveToken c t a wlt w)) \<le> approvals w + 1"
  by (simp add: approveToken_defs approvals_def split: status.splits)

lemma approveToken_allowance:
  assumes "approveToken c t a wlt w = (Inr r, w1)"
  shows "a \<le> allowances w1 (address t) wlt SWAP_ROUTER_CONTRACT_ADDRESS"
  using assms
  by (auto simp add: approveToken_defs split: status.splits if_splits)

lemma approveToken_decimals:
  assumes "approveToken c t a wlt w = (Inr r, w1)"
  shows "decimals t \<le> 80"
  using assms
  by (auto simp add: approveToken_def approveToken_try_def formatBigInt_def run_defs
      split: if_splits)

lemma approveToken_approved:
  assumes "a \<le> allowances w (address t) wlt SWAP_ROUTER_CONTRACT_ADDRESS"
  shows "approvals (snd (approveToken c t a wlt w)) = approvals w
    \<and> (fst (approveToken c t a wlt w) = Inr AlreadyApproved
        \<or> fst (approveToken c t a wlt w) = Inl ApprovalFailed)"
  using assms
  by (auto simp add: approveToken_defs approvals_def split: status.splits if_splits)

lemma approveToken_already:
  assumes "a \<le> allowances w (address t) wlt SWAP_ROUTER_CONTRACT_ADDRESS"
    and "status c (length (events w)) = Succeeds"
    and "status c (Suc (length (events w))) = Succeeds"
    and "a \<le> rpc_balanceOf c (length (events w)) (address t) wlt"
    and "decimals t \<le> 80"
  shows "fst (approveToken c t a wlt w) = Inr AlreadyApproved"
  using assms
  by (auto simp add: approveToken_defs approvals_def split: status.splits if_splits)

text \<open>
  C4. Two invocations of the approver in succession, with the same amount, hand at most
  one approval transaction to the wallet, from every starting state. When the first
  returns, the allowance is at least the amount; the second then sends nothing, and
  returns \<open>AlreadyApproved\<close> when its two reads succeed and the balance suffices.
\<close>

theorem approveToken_idempotent:
  "approvals (snd (approveToken_twice c t a wlt w)) \<le> approvals w + 1
   \<and> (\<forall>r w1. approveToken c t a wlt w = (Inr r, w1) \<longrightarrow>
         a \<le> allowances w1 (address t) wlt SWAP_ROUTER_CONTRACT_ADDRESS
         \<and> approvals (snd (approveToken c t a wlt w1)) = approvals w1
         \<and> (status c (length (events w1)) = Succeeds
            \<and> status c (Suc (length (events w1))) = Succeeds
            \<and> a \<le> rpc_balanceOf c (length (events w1)) (address t) wlt
            \<longrightarrow> fst (approveToken c t a wlt w1) = Inr AlreadyApproved))"
proof -
  have second: "a \<le> allowances w1 (address t) wlt SWAP_ROUTER_CONTRACT_ADDRESS
      \<and> approvals (snd (approveToken c t a wlt w1)) = approvals w1
      \<and> (status c (length (events w1)) = Succeeds
          \<and> status c (Suc (length (events w1))) = Succeeds
          \<and> a \<le> rpc_balanceOf c (length (events w1)) (address t) wlt
          \<longrightarrow> fst (approveToken c t a wlt w1) = Inr AlreadyApproved)"
    if "approveToken c t a wlt w = (Inr r, w1)" for r w1
    using approveToken_allowance [OF that] approveToken_decimals [OF that]
      approveToken_approved approveToken_already
    by blast
  have "approvals (snd (approveToken_twice c t a wlt w)) \<le> approvals w + 1"
  proof (cases "approveToken c t a wlt w")
    case (Pair r w1)
    have first: "approvals w1 \<le> approvals w + 1"
      using approveToken_approvals [of c t a wlt w] Pair by simp
    show ?thesis
    proof (cases r)
      case (Inl e)
      then show ?thesis using Pair first by (simp add: approveToken_twice_def await_def)
    next
      case (Inr x)
      then have "approvals (snd (approveToken c t a wlt w1)) = approvals w1"
        using second Pair by blast
      then show ?thesis using Pair Inr first by (simp add: approveToken_twice_def await_def)
    qed
  qed
  with second show ?thesis by blast
qed

text \<open>
  From an allowance of 0 the first invocation sends the approval, the second returns
  \<open>AlreadyApproved\<close>.
\<close>

theorem approveToken_idempotent_witness:
  "approvals (snd (approveToken_twice empty_chain token_in 5 (signer_address empty_chain) world0))
     \<le> approvals world0 + 1
   \<and> approvals world0 = 0
   \<and> (\<exists>w1. approveToken empty_chain token_in 5 (signer_address empty_chain) world0
              = (Inr (Approved 2), w1)
         \<and> approvals w1 = 1
         \<and> 5 \<le> allowances w1 (address token_in) (signer_address empty_chain)
                  SWAP_ROUTER_CONTRACT_ADDRESS
         \<and> approvals (snd (approveToken empty_chain token_in 5 (signer_address empty_chain) w1))
             = approvals w1
         \<and> fst (approveToken empty_chain token_in 5 (signer_address empty_chain) w1)
             = Inr AlreadyApproved)"
proof -
  note t = approveToken_idempotent [of empty_chain token_in 5 "signer_address empty_chain" world0]
  obtain r w1 where a: "approveToken empty_chain token_in 5 (signer_address empty_chain) world0
      = (r, w1)"
    by (cases "approveToken empty_chain token_in 5 (signer_address empty_chain) world0")
  have r: "fst (approveToken empty_chain token_in 5 (signer_address empty_chain) world0)
      = Inr (Approved 2)"
    by code_simp
  have n: "approvals
      (snd (approveToken empty_chain token_in 5 (signer_address empty_chain) world0)) = 1"
    by code_simp
  have a': "approveToken empty_chain token_in 5 (signer_address empty_chain) world0
      = (Inr (Approved 2), w1)"
    using a r by simp
  have n1: "approvals w1 = 1" using a n by simp
  have s: "status empty_chain (length (events w1)) = Succeeds"
    "status empty_chain (Suc (length (events w1))) = Succeeds"
    "5 \<le> rpc_balanceOf empty_chain (length (events w1)) (address token_in)
            (signer_address empty_chain)"
    by (simp_all add: empty_chain_def)
  have z: "approvals world0 = 0" by (simp add: approvals_def world0_def)
  from t a' s have "5 \<le> allowances w1 (address token_in) (signer_address empty_chain)
                  SWAP_ROUTER_CONTRACT_ADDRESS
         \<and> approvals (snd (approveToken empty_chain token_in 5 (signer_address empty_chain) w1))
             = approvals w1
         \<and> fst (approveToken empty_chain token_in 5 (signer_address empty_chain) w1)
             = Inr AlreadyApproved"
    by blast
  with t a' n1 z show ?thesis by blast
qed

section \<open>The pool locator\<close>

lemma read_events: "events (snd (read c q v w)) = events w @ [Read q]"
  by (simp add: read_def Let_def split: status.splits)

lemma read_error: "read c q v w = (Inl e, w') \<Longrightarrow> \<exists>b. e = External b"
  by (auto simp: read_def Let_def split: status.splits)

lemma read_value: "read c q v w = (Inr x, w') \<Longrightarrow> x = v"
  by (auto simp: read_def Let_def split: status.splits)

lemma call_getPool_cases:
  assumes "call_getPool c a b f w = (x, w1)"
  obtains (ok) "x = Inr (rpc_getPool c a b f)" | (failed) e where "x = Inl (External e)"
  using assms by (auto simp: call_getPool_def read_def Let_def split: status.splits)

lemma tryFeeTiers_Cons:
  "tryFeeTiers c a b (f # fees) w =
     (case call_getPool c a b f w of
        (Inl e, w1) \<Rightarrow> (Inl e, w1)
      | (Inr p, w1) \<Rightarrow>
          if p \<noteq> ZeroAddress then (Inr (Some (p, f)), w1) else tryFeeTiers c a b fees w1)"
  by (simp add: await_def ret_def split: prod.splits sum.splits)

lemma tryFeeTiers_result:
  "tryFeeTiers c a b fees w = (Inr r, w') \<Longrightarrow>
     r = map_option (\<lambda>f. (rpc_getPool c a b f, f))
           (find (\<lambda>f. rpc_getPool c a b f \<noteq> ZeroAddress) fees)"
proof (induction fees arbitrary: w)
  case Nil
  then show ?case by (simp add: ret_def)
next
  case (Cons f fees)
  obtain x w1 where g: "call_getPool c a b f w = (x, w1)" by (cases "call_getPool c a b f w")
  from g show ?case
  proof (cases rule: call_getPool_cases)
    case ok
    show ?thesis
    proof (cases "rpc_getPool c a b f = ZeroAddress")
      case True
      have "tryFeeTiers c a b fees w1 = (Inr r, w')"
        using Cons.prems unfolding tryFeeTiers_Cons g ok using True by simp
      from Cons.IH [OF this] show ?thesis using True by simp
    next
      case False
      have "r = Some (rpc_getPool c a b f, f)"
        using Cons.prems unfolding tryFeeTiers_Cons g ok using False by simp
      then show ?thesis using False by simp
    qed
  next
    case (failed e)
    have False using Cons.prems unfolding tryFeeTiers_Cons g failed by simp
    then show ?thesis ..
  qed
qed

lemma tryFeeTiers_error:
  "tryFeeTiers c a b fees w = (Inl e, w') \<Longrightarrow> \<exists>b. e = External b"
proof (induction fees arbitrary: w)
  case Nil
  then show ?case by (simp add: ret_def)
next
  case (Cons f fees)
  obtain x w1 where g: "call_getPool c a b f w = (x, w1)" by (cases "call_getPool c a b f w")
  from g show ?case
  proof (cases rule: call_getPool_cases)
    case ok
    show ?thesis
    proof (cases "rpc_getPool c a b f = ZeroAddress")
      case True
      have "tryFeeTiers c a b fees w1 = (Inl e, w')"
        using Cons.prems unfolding tryFeeTiers_Cons g ok using True by simp
      from Cons.IH [OF this] show ?thesis .
    next
      case False
      have False using Cons.prems unfolding tryFeeTiers_Cons g ok using False by simp
      then show ?thesis ..
    qed
  next
    case (failed e')
    have "e = External e'" using Cons.prems unfolding tryFeeTiers_Cons g failed by simp
    then show ?thesis by blast
  qed
qed

lemma tryFeeTiers_Succeeds:
  assumes "\<forall>k. status c k = Succeeds"
  shows "tryFeeTiers c a b fees w =
    (Inr (map_option (\<lambda>f. (rpc_getPool c a b f, f))
            (find (\<lambda>f. rpc_getPool c a b f \<noteq> ZeroAddress) fees)),
     w\<lparr>events := events w @ map (\<lambda>f. Read (Call_getPool a b f))
        (takeWhile (\<lambda>f. rpc_getPool c a b f = ZeroAddress) fees
         @ take 1 (dropWhile (\<lambda>f. rpc_getPool c a b f = ZeroAddress) fees))\<rparr>)"
proof (induction fees arbitrary: w)
  case Nil
  then show ?case by (simp add: ret_def)
next
  case (Cons f fees)
  then show ?case using assms
    by (simp add: await_def ret_def call_getPool_def read_Succeeds)
qed

lemma map_filter_append: "List.map_filter f (xs @ ys) = List.map_filter f xs @ List.map_filter f ys"
  by (simp add: List.map_filter_def)

lemma find_SomeD: "find P xs = Some x \<Longrightarrow> P x"
  by (auto simp: find_Some_iff)

lemma poolDetails_result:
  "poolDetails c tin p w = (Inr info, w') \<Longrightarrow>
     poolContract info = p \<and> poolFee info = rpc_fee c p"
  by (auto simp: poolDetails_def run_defs read_def Let_def split: status.splits)

lemma poolDetails_error: "poolDetails c tin p w = (Inl e, w') \<Longrightarrow> \<exists>b. e = External b"
  by (auto simp: poolDetails_def run_defs read_def Let_def split: status.splits)

lemma poolDetails_queries: "getPool_queries (snd (poolDetails c tin p w)) = getPool_queries w"
  by (auto simp: poolDetails_def run_defs read_def Let_def getPool_queries_def map_filter_append
      List.map_filter_def split: status.splits)

lemma poolDetails_Succeeds:
  assumes "\<forall>k. status c k = Succeeds"
  shows "\<exists>info w'. poolDetails c tin p w = (Inr info, w')"
  using assms by (simp add: poolDetails_def run_defs read_Succeeds)

lemma first_pool_unfold:
  "first_pool c a b =
     (case find (\<lambda>f. rpc_getPool c a b f \<noteq> ZeroAddress) feeTiers of
        Some f \<Rightarrow> Some (a, b, f)
      | None \<Rightarrow> map_option (\<lambda>f. (b, a, f))
                  (find (\<lambda>f. rpc_getPool c b a f \<noteq> ZeroAddress) feeTiers))"
  by (simp add: first_pool_def lookups_def feeTiers_def is_pool_def)

lemma locatePool_result:
  assumes "locatePool c tin tout w = (Inr p, w')"
  shows "p \<noteq> ZeroAddress
    \<and> (\<exists>a b f. first_pool c (address tin) (address tout) = Some (a, b, f)
          \<and> p = rpc_getPool c a b f)"
proof -
  obtain r1 w1 where t1: "tryFeeTiers c (address tin) (address tout) feeTiers w = (r1, w1)"
    by (cases "tryFeeTiers c (address tin) (address tout) feeTiers w")
  show ?thesis
  proof (cases r1)
    case (Inl e)
    then show ?thesis using assms t1 by (simp add: locatePool_def await_def)
  next
    case (Inr found)
    note f1 = tryFeeTiers_result [OF t1 [unfolded Inr]]
    show ?thesis
    proof (cases found)
      case (Some pf)
      then show ?thesis using assms t1 Inr f1
        by (auto simp: locatePool_def run_defs first_pool_unfold dest: find_SomeD
            split: if_splits option.splits)
    next
      case None
      obtain r2 w2 where t2: "tryFeeTiers c (address tout) (address tin) feeTiers w1 = (r2, w2)"
        by (cases "tryFeeTiers c (address tout) (address tin) feeTiers w1")
      show ?thesis
      proof (cases r2)
        case (Inl e)
        then show ?thesis using assms t1 Inr None t2 by (simp add: locatePool_def await_def)
      next
        case (Inr found')
        note f2 = tryFeeTiers_result [OF t2 [unfolded Inr]]
        show ?thesis using assms t1 \<open>r1 = Inr found\<close> None t2 Inr f1 f2
          by (auto simp: locatePool_def run_defs first_pool_unfold dest: find_SomeD
              split: if_splits option.splits)
      qed
    qed
  qed
qed

lemma locatePool_NoPoolFound:
  assumes "locatePool c tin tout w = (Inl NoPoolFound, w')"
  shows "first_pool c (address tin) (address tout) = None"
proof -
  obtain r1 w1 where t1: "tryFeeTiers c (address tin) (address tout) feeTiers w = (r1, w1)"
    by (cases "tryFeeTiers c (address tin) (address tout) feeTiers w")
  show ?thesis
  proof (cases r1)
    case (Inl e)
    then show ?thesis using assms t1 tryFeeTiers_error [of c _ _ feeTiers w e w1]
      by (auto simp add: locatePool_def await_def)
  next
    case (Inr found)
    note f1 = tryFeeTiers_result [OF t1 [unfolded Inr]]
    show ?thesis
    proof (cases found)
      case (Some pf)
      then show ?thesis using assms t1 Inr f1
        by (auto simp: locatePool_def run_defs first_pool_unfold dest: find_SomeD
            split: if_splits option.splits)
    next
      case None
      obtain r2 w2 where t2: "tryFeeTiers c (address tout) (address tin) feeTiers w1 = (r2, w2)"
        by (cases "tryFeeTiers c (address tout) (address tin) feeTiers w1")
      show ?thesis
      proof (cases r2)
        case (Inl e)
        then show ?thesis using assms t1 Inr None t2
            tryFeeTiers_error [of c _ _ feeTiers w1 e w2]
          by (auto simp add: locatePool_def await_def)
      next
        case (Inr found')
        note f2 = tryFeeTiers_result [OF t2 [unfolded Inr]]
        show ?thesis using assms t1 \<open>r1 = Inr found\<close> None t2 Inr f1 f2
          by (auto simp: locatePool_def run_defs first_pool_unfold dest: find_SomeD
              split: if_splits option.splits)
      qed
    qed
  qed
qed

lemma getPool_queries_append:
  "getPool_queries (w\<lparr>events := events w @ es\<rparr>) = getPool_queries w @ List.map_filter query_of es"
  by (simp add: getPool_queries_def map_filter_append)

lemma locatePool_Succeeds:
  assumes "\<forall>k. status c k = Succeeds"
  shows "fst (locatePool c tin tout w) =
      (case first_pool c (address tin) (address tout) of
         None \<Rightarrow> Inl NoPoolFound
       | Some (a, b, f) \<Rightarrow> Inr (rpc_getPool c a b f))"
  using assms
  by (simp add: locatePool_def await_def ret_def throw_def tryFeeTiers_Succeeds
      first_pool_unfold split: option.splits)
    (auto simp: feeTiers_def split: if_splits)

lemma locatePool_queries:
  assumes "\<forall>k. status c k = Succeeds"
  shows "getPool_queries (snd (locatePool c tin tout w)) =
      getPool_queries w
      @ takeWhile (Not \<circ> is_pool c) (lookups (address tin) (address tout))
      @ take 1 (dropWhile (Not \<circ> is_pool c) (lookups (address tin) (address tout)))"
proof -
  have "getPool_queries (snd (locatePool c tin tout w)) =
      getPool_queries w
      @ (let ab = (\<lambda>f. rpc_getPool c (address tin) (address tout) f = ZeroAddress);
             ba = (\<lambda>f. rpc_getPool c (address tout) (address tin) f = ZeroAddress)
         in map (\<lambda>f. (address tin, address tout, f))
              (takeWhile ab feeTiers @ take 1 (dropWhile ab feeTiers))
            @ (if find (Not \<circ> ab) feeTiers = None
               then map (\<lambda>f. (address tout, address tin, f))
                      (takeWhile ba feeTiers @ take 1 (dropWhile ba feeTiers))
               else []))"
    using assms
    by (auto simp add: locatePool_def await_def ret_def throw_def tryFeeTiers_Succeeds
        getPool_queries_append List.map_filter_def comp_def Let_def
        split: option.splits)
  also have "\<dots> = getPool_queries w
      @ takeWhile (Not \<circ> is_pool c) (lookups (address tin) (address tout))
      @ take 1 (dropWhile (Not \<circ> is_pool c) (lookups (address tin) (address tout)))"
    by (simp add: feeTiers_def lookups_def is_pool_def Let_def)
  finally show ?thesis .
qed

lemma token_addresses:
  "address token_in = TOKEN_IN_ADDRESS" "address token_out = TOKEN_OUT_ADDRESS"
  by (simp_all add: token_in_def token_out_def)

lemma example_chains_Succeed:
  "\<forall>k. status empty_chain k = Succeeds" "\<forall>k. status one_pool_chain k = Succeeds"
  "\<forall>k. status lopsided_chain k = Succeeds"
  by (simp_all add: empty_chain_def one_pool_chain_def lopsided_chain_def)

text \<open>
  C2. \<^verbatim>\<open>getPoolInfo\<close> fails with \<open>NoPoolFound\<close> only if all six lookups are the zero address,
  and a pool it returns is never the zero address: it is the first lookup, in the order
  of \<open>lookups\<close>, that is not the zero address. When the node answers every call, the
  factory is asked exactly the lookups up to and including that one, in that order, and
  the failure is \<open>NoPoolFound\<close> if all six are the zero address.
\<close>

theorem getPoolInfo_first_pool:
  "(fst (getPoolInfo c tin tout w) = Inl NoPoolFound \<longrightarrow>
      (\<forall>q \<in> set (lookups (address tin) (address tout)). \<not> is_pool c q))
   \<and> (\<forall>info. fst (getPoolInfo c tin tout w) = Inr info \<longrightarrow>
        poolContract info \<noteq> ZeroAddress
        \<and> (\<exists>a b f. first_pool c (address tin) (address tout) = Some (a, b, f)
              \<and> poolContract info = rpc_getPool c a b f))
   \<and> ((\<forall>k. status c k = Succeeds) \<longrightarrow>
        getPool_queries (snd (getPoolInfo c tin tout w)) =
          getPool_queries w
          @ takeWhile (Not \<circ> is_pool c) (lookups (address tin) (address tout))
          @ take 1 (dropWhile (Not \<circ> is_pool c) (lookups (address tin) (address tout)))
        \<and> (case first_pool c (address tin) (address tout) of
              None \<Rightarrow> fst (getPoolInfo c tin tout w) = Inl NoPoolFound
            | Some (a, b, f) \<Rightarrow>
                \<exists>info. fst (getPoolInfo c tin tout w) = Inr info
                  \<and> poolContract info = rpc_getPool c a b f))"
proof -
  obtain r1 w1 where l: "locatePool c tin tout w = (r1, w1)"
    by (cases "locatePool c tin tout w")
  have g: "getPoolInfo c tin tout w =
      (case r1 of Inl e \<Rightarrow> (Inl e, w1) | Inr p \<Rightarrow> poolDetails c tin p w1)"
    using l by (cases "r1"; cases "poolDetails c tin (projr r1) w1"; cases "fst (poolDetails c tin (projr r1) w1)")
      (auto simp: getPoolInfo_def getPoolInfo_try_def run_defs)
  have a: "\<forall>q \<in> set (lookups (address tin) (address tout)). \<not> is_pool c q"
    if "fst (getPoolInfo c tin tout w) = Inl NoPoolFound"
  proof -
    have "r1 = Inl NoPoolFound"
    proof (cases r1)
      case (Inl e)
      then show ?thesis using that g by simp
    next
      case (Inr p)
      obtain r2 w2 where d: "poolDetails c tin p w1 = (r2, w2)"
        by (cases "poolDetails c tin p w1")
      then have "r2 = Inl NoPoolFound" using that g Inr by simp
      then show ?thesis using poolDetails_error d by blast
    qed
    then have "first_pool c (address tin) (address tout) = None"
      using l locatePool_NoPoolFound by blast
    then show ?thesis by (auto simp add: first_pool_def find_None_iff)
  qed
  have b: "poolContract info \<noteq> ZeroAddress
        \<and> (\<exists>a b f. first_pool c (address tin) (address tout) = Some (a, b, f)
              \<and> poolContract info = rpc_getPool c a b f)"
    if "fst (getPoolInfo c tin tout w) = Inr info" for info
  proof (cases r1)
    case (Inl e)
    then show ?thesis using that g by simp
  next
    case (Inr p)
    obtain r2 w2 where d: "poolDetails c tin p w1 = (r2, w2)"
      by (cases "poolDetails c tin p w1")
    then have "r2 = Inr info" using that g Inr by simp
    then have "poolContract info = p" using poolDetails_result d by blast
    then show ?thesis using locatePool_result [OF l [unfolded Inr]] by simp
  qed
  have s: "getPool_queries (snd (getPoolInfo c tin tout w)) =
          getPool_queries w
          @ takeWhile (Not \<circ> is_pool c) (lookups (address tin) (address tout))
          @ take 1 (dropWhile (Not \<circ> is_pool c) (lookups (address tin) (address tout)))
        \<and> (case first_pool c (address tin) (address tout) of
              None \<Rightarrow> fst (getPoolInfo c tin tout w) = Inl NoPoolFound
            | Some (a, b, f) \<Rightarrow>
                \<exists>info. fst (getPoolInfo c tin tout w) = Inr info
                  \<and> poolContract info = rpc_getPool c a b f)"
    if ok: "\<forall>k. status c k = Succeeds"
  proof -
    have q1: "getPool_queries w1 = getPool_queries w
          @ takeWhile (Not \<circ> is_pool c) (lookups (address tin) (address tout))
          @ take 1 (dropWhile (Not \<circ> is_pool c) (lookups (address tin) (address tout)))"
      using locatePool_queries [OF ok, of tin tout w] l by simp
    have q: "getPool_queries (snd (getPoolInfo c tin tout w)) = getPool_queries w1"
      unfolding g by (cases r1) (simp_all add: poolDetails_queries)
    have r: "r1 = (case first_pool c (address tin) (address tout) of
         None \<Rightarrow> Inl NoPoolFound
       | Some (a, b, f) \<Rightarrow> Inr (rpc_getPool c a b f))"
      using locatePool_Succeeds [OF ok, of tin tout w] l by simp
    have "case first_pool c (address tin) (address tout) of
              None \<Rightarrow> fst (getPoolInfo c tin tout w) = Inl NoPoolFound
            | Some (a, b, f) \<Rightarrow>
                \<exists>info. fst (getPoolInfo c tin tout w) = Inr info
                  \<and> poolContract info = rpc_getPool c a b f"
    proof (cases "first_pool c (address tin) (address tout)")
      case None
      then show ?thesis using r g by simp
    next
      case (Some t)
      obtain a' b' f' where t: "t = (a', b', f')" by (cases t)
      obtain info w2 where d: "poolDetails c tin (rpc_getPool c a' b' f') w1 = (Inr info, w2)"
        using poolDetails_Succeeds [OF ok] by blast
      then have "poolContract info = rpc_getPool c a' b' f'"
        using poolDetails_result by blast
      then show ?thesis using Some t r g d by simp
    qed
    with q q1 show ?thesis by simp
  qed
  from a b s show ?thesis by blast
qed

text \<open>
  A factory without pools: all six lookups, then \<open>NoPoolFound\<close>. A factory with a pool at
  the tier 3000: two lookups, and that pool.
\<close>

theorem getPoolInfo_first_pool_witness:
  "(\<forall>k. status empty_chain k = Succeeds)
   \<and> fst (getPoolInfo empty_chain token_in token_out world0) = Inl NoPoolFound
   \<and> list_all (\<lambda>q. \<not> is_pool empty_chain q) (lookups TOKEN_IN_ADDRESS TOKEN_OUT_ADDRESS)
   \<and> getPool_queries (snd (getPoolInfo empty_chain token_in token_out world0))
       = lookups TOKEN_IN_ADDRESS TOKEN_OUT_ADDRESS
   \<and> (\<exists>info. fst (getPoolInfo one_pool_chain token_in token_out world0) = Inr info
         \<and> poolContract info = pool_A \<and> poolContract info \<noteq> ZeroAddress)
   \<and> getPool_queries (snd (getPoolInfo one_pool_chain token_in token_out world0))
       = [(TOKEN_IN_ADDRESS, TOKEN_OUT_ADDRESS, 500), (TOKEN_IN_ADDRESS, TOKEN_OUT_ADDRESS, 3000)]"
proof -
  note e = getPoolInfo_first_pool [of empty_chain token_in token_out world0,
      unfolded token_addresses]
  note p = getPoolInfo_first_pool [of one_pool_chain token_in token_out world0,
      unfolded token_addresses]
  have fe: "first_pool empty_chain TOKEN_IN_ADDRESS TOKEN_OUT_ADDRESS = None"
    by code_simp
  have fp: "first_pool one_pool_chain TOKEN_IN_ADDRESS TOKEN_OUT_ADDRESS
      = Some (TOKEN_IN_ADDRESS, TOKEN_OUT_ADDRESS, 3000)"
    by code_simp
  have gp: "rpc_getPool one_pool_chain TOKEN_IN_ADDRESS TOKEN_OUT_ADDRESS 3000 = pool_A"
    by code_simp
  have qe: "getPool_queries world0
      @ takeWhile (Not \<circ> is_pool empty_chain) (lookups TOKEN_IN_ADDRESS TOKEN_OUT_ADDRESS)
      @ take 1 (dropWhile (Not \<circ> is_pool empty_chain)
                 (lookups TOKEN_IN_ADDRESS TOKEN_OUT_ADDRESS))
      = lookups TOKEN_IN_ADDRESS TOKEN_OUT_ADDRESS"
    by code_simp
  have qp: "getPool_queries world0
      @ takeWhile (Not \<circ> is_pool one_pool_chain) (lookups TOKEN_IN_ADDRESS TOKEN_OUT_ADDRESS)
      @ take 1 (dropWhile (Not \<circ> is_pool one_pool_chain)
                 (lookups TOKEN_IN_ADDRESS TOKEN_OUT_ADDRESS))
      = [(TOKEN_IN_ADDRESS, TOKEN_OUT_ADDRESS, 500), (TOKEN_IN_ADDRESS, TOKEN_OUT_ADDRESS, 3000)]"
    by code_simp
  have e1: "fst (getPoolInfo empty_chain token_in token_out world0) = Inl NoPoolFound"
    using e example_chains_Succeed(1) fe by simp
  have e2: "list_all (\<lambda>q. \<not> is_pool empty_chain q) (lookups TOKEN_IN_ADDRESS TOKEN_OUT_ADDRESS)"
    using e e1 unfolding list_all_iff by blast
  have e3: "getPool_queries (snd (getPoolInfo empty_chain token_in token_out world0))
       = lookups TOKEN_IN_ADDRESS TOKEN_OUT_ADDRESS"
    using e example_chains_Succeed(1) qe by simp
  have p1: "\<exists>info. fst (getPoolInfo one_pool_chain token_in token_out world0) = Inr info
         \<and> poolContract info = pool_A"
    using p example_chains_Succeed(2) fp gp by simp
  then have p2: "\<exists>info. fst (getPoolInfo one_pool_chain token_in token_out world0) = Inr info
         \<and> poolContract info = pool_A \<and> poolContract info \<noteq> ZeroAddress"
    using p by blast
  have p3: "getPool_queries (snd (getPoolInfo one_pool_chain token_in token_out world0))
       = [(TOKEN_IN_ADDRESS, TOKEN_OUT_ADDRESS, 500), (TOKEN_IN_ADDRESS, TOKEN_OUT_ADDRESS, 3000)]"
    using p example_chains_Succeed(2) qp by simp
  from example_chains_Succeed(1) e1 e2 e3 p2 p3 show ?thesis by blast
qed

lemma getPoolInfo_unfold:
  "getPoolInfo c tin tout w =
     (case locatePool c tin tout w of
        (Inl e, w1) \<Rightarrow> (Inl e, w1)
      | (Inr p, w1) \<Rightarrow> poolDetails c tin p w1)"
  by (auto simp: getPoolInfo_def getPoolInfo_try_def run_defs split: prod.splits sum.splits)

lemma first_pool_symmetric:
  assumes "\<forall>f \<in> set feeTiers. rpc_getPool c a b f = rpc_getPool c b a f"
  shows "map_option (\<lambda>(a', b', f). rpc_getPool c a' b' f) (first_pool c a b)
       = map_option (\<lambda>(a', b', f). rpc_getPool c a' b' f) (first_pool c b a)"
  using assms by (simp add: first_pool_unfold feeTiers_def)

lemma getPoolInfo_Succeeds:
  assumes "\<forall>k. status c k = Succeeds"
  shows "map_sum id (\<lambda>i. (poolContract i, poolFee i)) (fst (getPoolInfo c tin tout w)) =
     (case map_option (\<lambda>(a', b', f). rpc_getPool c a' b' f)
             (first_pool c (address tin) (address tout)) of
        None \<Rightarrow> Inl NoPoolFound
      | Some p \<Rightarrow> Inr (p, rpc_fee c p))"
proof -
  obtain r1 w1 where l: "locatePool c tin tout w = (r1, w1)"
    by (cases "locatePool c tin tout w")
  have r: "r1 = (case first_pool c (address tin) (address tout) of
         None \<Rightarrow> Inl NoPoolFound
       | Some (a, b, f) \<Rightarrow> Inr (rpc_getPool c a b f))"
    using locatePool_Succeeds [OF assms, of tin tout w] l by simp
  show ?thesis
  proof (cases "first_pool c (address tin) (address tout)")
    case None
    then show ?thesis using r l by (simp add: getPoolInfo_unfold)
  next
    case (Some t)
    obtain a' b' f' where t: "t = (a', b', f')" by (cases t)
    obtain info w2 where d: "poolDetails c tin (rpc_getPool c a' b' f') w1 = (Inr info, w2)"
      using poolDetails_Succeeds [OF assms] by blast
    from poolDetails_result [OF d] show ?thesis
      using Some t r l d by (simp add: getPoolInfo_unfold)
  qed
qed

text \<open>
  C6 (amended). When the lookups of the factory do not depend on the order of the two
  tokens at any tier (and the node answers every call), \<^verbatim>\<open>getPoolInfo\<close> called with
  (tokenA, tokenB) and with (tokenB, tokenA) gives the same pool address and fee, or
  \<open>NoPoolFound\<close> both times.
\<close>

theorem getPoolInfo_order_independent:
  assumes "\<forall>k. status c k = Succeeds"
    and "\<forall>f \<in> set feeTiers.
           rpc_getPool c (address tokenA) (address tokenB) f
         = rpc_getPool c (address tokenB) (address tokenA) f"
  shows "map_sum id (\<lambda>i. (poolContract i, poolFee i)) (fst (getPoolInfo c tokenA tokenB w))
       = map_sum id (\<lambda>i. (poolContract i, poolFee i)) (fst (getPoolInfo c tokenB tokenA w'))"
  unfolding getPoolInfo_Succeeds [OF assms(1)] first_pool_symmetric [OF assms(2)] ..

theorem getPoolInfo_order_independent_witness:
  "(\<forall>k. status one_pool_chain k = Succeeds)
   \<and> list_all (\<lambda>f.
         rpc_getPool one_pool_chain (address token_in) (address token_out) f
       = rpc_getPool one_pool_chain (address token_out) (address token_in) f) feeTiers
   \<and> map_sum id (\<lambda>i. (poolContract i, poolFee i))
        (fst (getPoolInfo one_pool_chain token_in token_out world0)) = Inr (pool_A, 3000)
   \<and> map_sum id (\<lambda>i. (poolContract i, poolFee i))
        (fst (getPoolInfo one_pool_chain token_out token_in world0)) = Inr (pool_A, 3000)"
proof -
  have s: "\<forall>f \<in> set feeTiers.
         rpc_getPool one_pool_chain (address token_in) (address token_out) f
       = rpc_getPool one_pool_chain (address token_out) (address token_in) f"
    by (simp add: one_pool_chain_def insert_commute)
  have v: "map_sum id (\<lambda>i. (poolContract i, poolFee i))
        (fst (getPoolInfo one_pool_chain token_in token_out world0)) = Inr (pool_A, 3000)"
    by code_simp
  from getPoolInfo_order_independent [OF example_chains_Succeed(2) s, of world0 world0] v
  have "map_sum id (\<lambda>i. (poolContract i, poolFee i))
        (fst (getPoolInfo one_pool_chain token_out token_in world0)) = Inr (pool_A, 3000)"
    by simp
  with s v example_chains_Succeed(2) show ?thesis unfolding list_all_iff by blast
qed

text \<open>
  C6 as stated, for any fixed function from (address, address, fee) to a pool address,
  fails: with a pool at the tier 3000 under one order and another at the tier 500
  under the reversed order, each call returns the pool of its own order.
\<close>

theorem getPoolInfo_order_dependent:
  "map_sum id (\<lambda>i. (poolContract i, poolFee i))
     (fst (getPoolInfo lopsided_chain token_in token_out world0)) = Inr (pool_A, 3000)
   \<and> map_sum id (\<lambda>i. (poolContract i, poolFee i))
     (fst (getPoolInfo lopsided_chain token_out token_in world0)) = Inr (pool_B, 500)
   \<and> pool_A \<noteq> pool_B"
  by code_simp

section \<open>The pipeline\<close>

lemma keeps_ret: "keeps P (ret v)"
  by (simp add: keeps_def ret_def)

lemma keeps_throw: "keeps P (throw e)"
  by (simp add: keeps_def throw_def)

lemma keeps_await:
  assumes "keeps P m" and "\<And>x. keeps P (f x)"
  shows "keeps P (await m f)"
  unfolding keeps_def
proof (intro allI impI)
  fix w assume "P w"
  then have "P (snd (m w))" using assms(1) by (simp add: keeps_def)
  then show "P (snd (await m f w))"
    using assms(2) by (cases "m w"; cases "fst (m w)") (auto simp: await_def keeps_def)
qed

lemma keeps_try_catch:
  assumes "keeps P m" and "\<And>e. keeps P (h e)"
  shows "keeps P (try_catch m h)"
  unfolding keeps_def
proof (intro allI impI)
  fix w assume "P w"
  then have "P (snd (m w))" using assms(1) by (simp add: keeps_def)
  then show "P (snd (try_catch m h w))"
    using assms(2) by (cases "m w"; cases "fst (m w)") (auto simp: try_catch_def keeps_def)
qed

lemma keeps_promise_all:
  assumes "keeps P m1" and "keeps P m2"
  shows "keeps P (promise_all m1 m2)"
  unfolding keeps_def
proof (intro allI impI)
  fix w assume "P w"
  then have "P (snd (m1 w))" using assms(1) by (simp add: keeps_def)
  then have "P (snd (m2 (snd (m1 w))))" using assms(2) by (simp add: keeps_def)
  then show "P (snd (promise_all m1 m2 w))"
    by (auto simp: promise_all_def split: prod.splits sum.splits)
qed

lemma keeps_if: "keeps P m1 \<Longrightarrow> keeps P m2 \<Longrightarrow> keeps P (if b then m1 else m2)"
  by simp

lemma keeps_case_option:
  "keeps P m \<Longrightarrow> (\<And>x. keeps P (f x)) \<Longrightarrow> keeps P (case_option m f v)"
  by (cases v) simp_all

lemma keeps_case_prod: "(\<And>a b. keeps P (f a b)) \<Longrightarrow> keeps P (case_prod f v)"
  by (cases v) simp

lemma all_requests_append:
  "all_requests Q (w\<lparr>events := events w @ [e]\<rparr>) \<longleftrightarrow>
     all_requests Q w \<and> (\<forall>r. event_request e = Some r \<longrightarrow> Q r)"
  by (cases "event_request e")
    (auto simp: all_requests_def requests_def List.map_filter_def)

lemma all_requests_apply_tx: "all_requests Q (apply_tx s t w) = all_requests Q w"
  by (cases t) (simp_all add: all_requests_def requests_def)

lemma keeps_read:
  assumes "\<And>r. event_request (Read q) = Some r \<Longrightarrow> Q r"
  shows "keeps (all_requests Q) (read c q v)"
  using assms
  by (auto simp: keeps_def read_def Let_def all_requests_append split: status.splits)

lemma keeps_sendTransaction:
  assumes "\<And>r. event_request (Send t g) = Some r \<Longrightarrow> Q r"
  shows "keeps (all_requests Q) (sendTransaction c s t g)"
  using assms
  by (auto simp: keeps_def sendTransaction_def Let_def all_requests_append
      all_requests_apply_tx split: status.splits)

lemma keeps_calls:
  "keeps (all_requests Q) (call_balanceOf c t ow)"
  "keeps (all_requests Q) (call_getBalance c ow)"
  "keeps (all_requests Q) (call_allowance c t ow sp)"
  "keeps (all_requests Q) (call_getPool c a b f)"
  "keeps (all_requests Q) (now_deadline c)"
  by (auto simp: keeps_def call_balanceOf_def call_getBalance_def call_allowance_def
      call_getPool_def now_deadline_def read_def Let_def all_requests_append
      split: status.splits)

lemma keeps_formatBigInt: "keeps P (formatBigInt v d)"
  by (simp add: formatBigInt_def keeps_ret keeps_throw)

lemma keeps_log_formatted: "keeps P (log_formatted xs)"
  by (induction xs) (auto intro!: keeps_await keeps_ret keeps_formatBigInt)

lemma keeps_toISOString: "keeps P (toISOString ms)"
  by (simp add: toISOString_def keeps_ret keeps_throw)

lemmas keeps_intros = keeps_ret keeps_throw keeps_await keeps_try_catch keeps_promise_all
  keeps_if keeps_case_option keeps_case_prod keeps_calls keeps_formatBigInt
  keeps_log_formatted keeps_toISOString

lemma keeps_fetchTokenInfo: "keeps (all_requests Q) (fetchTokenInfo c a)"
  unfolding fetchTokenInfo_def by (intro keeps_intros keeps_read) simp_all

lemma keeps_logBalances: "keeps (all_requests Q) (logBalances c wlt ti to)"
  unfolding logBalances_def by (intro keeps_intros)

lemma keeps_approveToken: "keeps (all_requests Q) (approveToken c t a wlt)"
  unfolding approveToken_def approveToken_try_def checkBalance_def
  by (intro keeps_intros keeps_sendTransaction) simp_all

lemma keeps_tryFeeTiers: "keeps (all_requests Q) (tryFeeTiers c a b fees)"
  by (induction fees) (auto intro!: keeps_intros)

lemma keeps_getPoolInfo: "keeps (all_requests Q) (getPoolInfo c ti to)"
  unfolding getPoolInfo_def getPoolInfo_try_def locatePool_def poolDetails_def
  by (intro keeps_intros keeps_tryFeeTiers keeps_read) simp_all

text \<open>
  The value that \<^verbatim>\<open>getQuote\<close> returns is the answer of the quoter: what follows the
  \<^verbatim>\<open>await\<close> need only be considered for that value.
\<close>

lemma keeps_await_getQuote:
  assumes "Q params"
    and "keeps (all_requests Q) (f (rpc_quoteExactInputSingle c params))"
  shows "keeps (all_requests Q) (await (getQuote c params t) f)"
  unfolding keeps_def
proof (intro allI impI)
  fix w assume w: "all_requests Q w"
  have w': "all_requests Q (w\<lparr>events := events w @ [Read (Call_quote params)]\<rparr>)"
    using w assms(1) by (simp add: all_requests_append)
  show "all_requests Q (snd (await (getQuote c params t) f w))"
  proof (cases "status c (length (events w))")
    case Succeeds
    show ?thesis
    proof (cases "decimals t \<le> 80")
      case True
      then have "await (getQuote c params t) f w
          = f (rpc_quoteExactInputSingle c params)
              (w\<lparr>events := events w @ [Read (Call_quote params)]\<rparr>)"
        using Succeeds by (simp add: getQuote_def formatBigInt_def run_defs read_def)
      then show ?thesis using w' assms(2) by (simp add: keeps_def)
    next
      case False
      then show ?thesis using Succeeds w'
        by (simp add: getQuote_def formatBigInt_def run_defs read_def)
    qed
  next
    case (Rejects b)
    then show ?thesis using w'
      by (simp add: getQuote_def run_defs read_def)
  next
    case (Reverts b)
    then show ?thesis using w'
      by (simp add: getQuote_def run_defs read_def)
  qed
qed

lemma keeps_diagnostics:
  "admits_fallback Q \<Longrightarrow> keeps (all_requests Q) (diagnostics c params ti to)"
  unfolding diagnostics_def Let_def
  by (intro keeps_intros keeps_read) (auto simp: admits_fallback_def)

lemma keeps_executeSwap:
  "admits_fallback Q \<Longrightarrow> Q params \<Longrightarrow>
     keeps (all_requests Q) (executeSwap c params s ti to)"
  unfolding executeSwap_def
  by (intro keeps_intros keeps_read keeps_sendTransaction keeps_diagnostics) simp_all

lemma keeps_tryExactOutputSwap:
  "admits_fallback Q \<Longrightarrow> keeps (all_requests Q) (tryExactOutputSwap c f q ti to s)"
  unfolding tryExactOutputSwap_def Let_def
  by (intro keeps_intros keeps_read keeps_sendTransaction keeps_approveToken)
    (auto simp: admits_fallback_def)

lemma keeps_main:
  assumes "admits_fallback Q"
    and "\<And>i out f rc d a r.
           Q (ExactInputSingle i out f rc d a
                (amountOutMinimum_guarded SLIPPAGE_TOLERANCE (rpc_quoteExactInputSingle c r)) 0)"
  shows "keeps (all_requests Q) (main c u)"
  unfolding main_def Let_def
  using assms
  by (intro keeps_try_catch keeps_await_getQuote keeps_intros keeps_fetchTokenInfo
      keeps_logBalances keeps_approveToken keeps_getPoolInfo keeps_executeSwap
      keeps_tryExactOutputSwap) (auto simp: admits_fallback_def)

text \<open>
  C10. Every parameter object that a run of \<^verbatim>\<open>main\<close> passes to the quoter, the gas
  estimator or the router has \<open>sqrtPriceLimitX96 = 0\<close>: the quote and the swap of the
  exact-input path, the diagnostic quote, and the quote and the swap of the exact-output
  fallback.
\<close>

theorem main_no_price_limit:
  assumes "\<forall>r \<in> set (requests w). sqrtPriceLimitX96 r = 0"
  shows "\<forall>r \<in> set (requests (snd (main c swapAmount_units w))). sqrtPriceLimitX96 r = 0"
proof -
  have "admits_fallback no_price_limit"
    by (simp add: admits_fallback_def no_price_limit_def)
  then have "keeps (all_requests no_price_limit) (main c swapAmount_units)"
    by (rule keeps_main) (simp add: no_price_limit_def)
  then show ?thesis
    using assms by (simp add: keeps_def all_requests_def no_price_limit_def list_all_iff)
qed

text \<open>
  A run in which the exact-input swap fails twice and the exact-output fallback goes
  through: all six parameter objects.
\<close>

theorem main_no_price_limit_witness:
  "list_all (\<lambda>r. sqrtPriceLimitX96 r = 0) (requests world0)
   \<and> requests (snd (main failing_swap_chain SWAP_AMOUNT_units world0)) =
       [QuoteExactInputSingle TOKEN_IN_ADDRESS TOKEN_OUT_ADDRESS 3000 (10 * 10 ^ 18) 0,
        ExactInputSingle TOKEN_IN_ADDRESS TOKEN_OUT_ADDRESS 3000
          (signer_address failing_swap_chain) 1700000600 (10 * 10 ^ 18) 142737500 0,
        ExactInputSingle TOKEN_IN_ADDRESS TOKEN_OUT_ADDRESS 3000
          (signer_address failing_swap_chain) 1700000600 (10 * 10 ^ 18) 142737500 0,
        QuoteExactInputSingle TOKEN_IN_ADDRESS TOKEN_OUT_ADDRESS 3000 (10 ^ 18) 0,
        QuoteExactOutputSingle TOKEN_IN_ADDRESS TOKEN_OUT_ADDRESS 3000
          (signer_address failing_swap_chain) 135225000 0,
        ExactOutputSingle TOKEN_IN_ADDRESS TOKEN_OUT_ADDRESS 3000
          (signer_address failing_swap_chain) 1700000600 135225000 9450000000000000000 0]
   \<and> list_all (\<lambda>r. sqrtPriceLimitX96 r = 0)
        (requests (snd (main failing_swap_chain SWAP_AMOUNT_units world0)))"
proof -
  have h: "\<forall>r \<in> set (requests world0). sqrtPriceLimitX96 r = 0"
    by (simp add: requests_def world0_def)
  have v: "requests (snd (main failing_swap_chain SWAP_AMOUNT_units world0)) =
       [QuoteExactInputSingle TOKEN_IN_ADDRESS TOKEN_OUT_ADDRESS 3000 (10 * 10 ^ 18) 0,
        ExactInputSingle TOKEN_IN_ADDRESS TOKEN_OUT_ADDRESS 3000
          (signer_address failing_swap_chain) 1700000600 (10 * 10 ^ 18) 142737500 0,
        ExactInputSingle TOKEN_IN_ADDRESS TOKEN_OUT_ADDRESS 3000
          (signer_address failing_swap_chain) 1700000600 (10 * 10 ^ 18) 142737500 0,
        QuoteExactInputSingle TOKEN_IN_ADDRESS TOKEN_OUT_ADDRESS 3000 (10 ^ 18) 0,
        QuoteExactOutputSingle TOKEN_IN_ADDRESS TOKEN_OUT_ADDRESS 3000
          (signer_address failing_swap_chain) 135225000 0,
        ExactOutputSingle TOKEN_IN_ADDRESS TOKEN_OUT_ADDRESS 3000
          (signer_address failing_swap_chain) 1700000600 135225000 9450000000000000000 0]"
    by code_simp
  from main_no_price_limit [OF h, of failing_swap_chain SWAP_AMOUNT_units] h v
  show ?thesis unfolding list_all_iff by blast
qed

text \<open>
  The guarded bound is the one that reaches the router: when the quoter answers with
  amounts from 0 on, every exact-input swap that a run of \<^verbatim>\<open>main\<close> passes to the gas
  estimator or the router has a minimum-output bound of at least 1.
\<close>

lemma main_bound_at_least_1:
  assumes "\<forall>r. 0 \<le> rpc_quoteExactInputSingle c r"
    and "list_all bound_at_least_1 (requests w)"
  shows "list_all bound_at_least_1 (requests (snd (main c swapAmount_units w)))"
proof -
  have "admits_fallback bound_at_least_1" by (simp add: admits_fallback_def)
  moreover have "SLIPPAGE_TOLERANCE \<le> 1" by (simp add: SLIPPAGE_TOLERANCE_def)
  ultimately have "keeps (all_requests bound_at_least_1) (main c swapAmount_units)"
    using assms(1) by (intro keeps_main) (simp_all add: amountOutMinimum_guarded_ge_1)
  then show ?thesis using assms(2) by (simp add: keeps_def all_requests_def)
qed

lemma tryFeeTiers_none:
  assumes "\<forall>k. status c k = Succeeds" and "\<forall>f \<in> set fees. rpc_getPool c a b f = ZeroAddress"
  shows "tryFeeTiers c a b fees w =
    (Inr None, w\<lparr>events := events w @ map (\<lambda>f. Read (Call_getPool a b f)) fees\<rparr>)"
  using assms
proof (induction fees arbitrary: w)
  case Nil
  then show ?case by (simp add: ret_def)
next
  case (Cons f fees)
  then show ?case by (simp add: await_def ret_def call_getPool_def read_Succeeds)
qed

lemma getPoolInfo_none:
  assumes "\<forall>k. status c k = Succeeds"
    and "\<forall>q \<in> set (lookups (address tin) (address tout)). \<not> is_pool c q"
  shows "getPoolInfo c tin tout w =
    (Inl NoPoolFound,
     w\<lparr>events := events w
        @ map (\<lambda>(a, b, f). Read (Call_getPool a b f)) (lookups (address tin) (address tout))\<rparr>)"
proof -
  have ab: "\<forall>f \<in> set feeTiers. rpc_getPool c (address tin) (address tout) f = ZeroAddress"
    and ba: "\<forall>f \<in> set feeTiers. rpc_getPool c (address tout) (address tin) f = ZeroAddress"
    using assms(2) by (simp_all add: lookups_def feeTiers_def is_pool_def)
  show ?thesis
    by (simp add: getPoolInfo_def getPoolInfo_try_def locatePool_def run_defs
        tryFeeTiers_none [OF assms(1) ab] tryFeeTiers_none [OF assms(1) ba])
      (simp add: lookups_def feeTiers_def)
qed

text \<open>
  C9. \<^verbatim>\<open>main\<close> runs the approver before the pool locator. When the two tokens report at
  most 80 decimals (so that their amounts can be formatted for the log), the allowance is
  below the amount, the wallet holds the amount, the node answers every call and the
  factory knows no pool for the pair, the run ends with \<open>NoPoolFound\<close> after the approval
  transaction has been sent and confirmed: it is in the record before the six lookups,
  and the allowance on the chain is the amount.
\<close>

theorem main_NoPoolFound_after_approval:
  assumes "\<forall>k. status c k = Succeeds"
    and "rpc_decimals c TOKEN_IN_ADDRESS \<le> 80"
    and "rpc_decimals c TOKEN_OUT_ADDRESS \<le> 80"
    and "swapAmount_units (rpc_decimals c TOKEN_IN_ADDRESS) = Some amount"
    and "amount \<le> rpc_balanceOf c (length (events w) + 9) TOKEN_IN_ADDRESS (signer_address c)"
    and "allowances w TOKEN_IN_ADDRESS (signer_address c) SWAP_ROUTER_CONTRACT_ADDRESS < amount"
    and "\<forall>q \<in> set (lookups TOKEN_IN_ADDRESS TOKEN_OUT_ADDRESS). \<not> is_pool c q"
  shows "fst (main c swapAmount_units w) = Inl NoPoolFound
    \<and> allowances (snd (main c swapAmount_units w)) TOKEN_IN_ADDRESS (signer_address c)
        SWAP_ROUTER_CONTRACT_ADDRESS = amount
    \<and> events (snd (main c swapAmount_units w)) =
        events w
        @ [Read (Call_symbol TOKEN_IN_ADDRESS), Read (Call_name TOKEN_IN_ADDRESS),
           Read (Call_decimals TOKEN_IN_ADDRESS),
           Read (Call_symbol TOKEN_OUT_ADDRESS), Read (Call_name TOKEN_OUT_ADDRESS),
           Read (Call_decimals TOKEN_OUT_ADDRESS),
           Read (Call_balanceOf TOKEN_IN_ADDRESS (signer_address c)),
           Read (Call_balanceOf TOKEN_OUT_ADDRESS (signer_address c)),
           Read (Call_getBalance (signer_address c)),
           Read (Call_balanceOf TOKEN_IN_ADDRESS (signer_address c)),
           Read (Call_allowance TOKEN_IN_ADDRESS (signer_address c) SWAP_ROUTER_CONTRACT_ADDRESS),
           Send (Tx_approve TOKEN_IN_ADDRESS SWAP_ROUTER_CONTRACT_ADDRESS amount) 100000,
           Read (Call_allowance TOKEN_IN_ADDRESS (signer_address c) SWAP_ROUTER_CONTRACT_ADDRESS)]
        @ map (\<lambda>(a, b, f). Read (Call_getPool a b f)) (lookups TOKEN_IN_ADDRESS TOKEN_OUT_ADDRESS)"
proof -
  have ok: "\<And>k. status c k = Succeeds" using assms(1) by simp
  have fmt: "\<And>v. formatBigInt v (rpc_decimals c TOKEN_IN_ADDRESS) = ret ()"
    "\<And>v. formatBigInt v (rpc_decimals c TOKEN_OUT_ADDRESS) = ret ()"
    "\<And>v. formatBigInt v 18 = ret ()"
    using assms(2,3) by (simp_all add: formatBigInt_def)
  have none: "\<forall>q \<in> set (lookups (address \<lparr>chainId = CHAIN_ID, address = TOKEN_IN_ADDRESS,
        decimals = rpc_decimals c TOKEN_IN_ADDRESS, symbol = rpc_symbol c TOKEN_IN_ADDRESS,
        name = rpc_name c TOKEN_IN_ADDRESS, isToken = True\<rparr>)
      (address \<lparr>chainId = CHAIN_ID, address = TOKEN_OUT_ADDRESS,
        decimals = rpc_decimals c TOKEN_OUT_ADDRESS, symbol = rpc_symbol c TOKEN_OUT_ADDRESS,
        name = rpc_name c TOKEN_OUT_ADDRESS, isToken = True\<rparr>)). \<not> is_pool c q"
    using assms(7) by simp
  have nine: "length (events w) + 9
      = Suc (Suc (Suc (Suc (Suc (Suc (Suc (Suc (Suc (length (events w))))))))))"
    by simp
  show ?thesis
    using assms(4,6) assms(5) [unfolded nine]
    by (simp add: main_def fetchTokenInfo_def logBalances_def approveToken_def
        approveToken_try_def checkBalance_def call_balanceOf_def call_getBalance_def
        call_allowance_def sendTransaction_def fmt run_defs read_Succeeds ok Let_def
        getPoolInfo_none [OF assms(1) none])
qed

theorem main_NoPoolFound_after_approval_witness:
  "(\<forall>k. status empty_chain k = Succeeds)
   \<and> rpc_decimals empty_chain TOKEN_IN_ADDRESS \<le> 80
   \<and> rpc_decimals empty_chain TOKEN_OUT_ADDRESS \<le> 80
   \<and> SWAP_AMOUNT_units (rpc_decimals empty_chain TOKEN_IN_ADDRESS) = Some (10 * 10 ^ 18)
   \<and> 10 * 10 ^ 18 \<le> rpc_balanceOf empty_chain (length (events world0) + 9) TOKEN_IN_ADDRESS
                       (signer_address empty_chain)
   \<and> allowances world0 TOKEN_IN_ADDRESS (signer_address empty_chain)
        SWAP_ROUTER_CONTRACT_ADDRESS < 10 * 10 ^ 18
   \<and> list_all (\<lambda>q. \<not> is_pool empty_chain q) (lookups TOKEN_IN_ADDRESS TOKEN_OUT_ADDRESS)
   \<and> fst (main empty_chain SWAP_AMOUNT_units world0) = Inl NoPoolFound
   \<and> allowances (snd (main empty_chain SWAP_AMOUNT_units world0)) TOKEN_IN_ADDRESS
        (signer_address empty_chain) SWAP_ROUTER_CONTRACT_ADDRESS = 10 * 10 ^ 18
   \<and> Send (Tx_approve TOKEN_IN_ADDRESS SWAP_ROUTER_CONTRACT_ADDRESS (10 * 10 ^ 18)) 100000
        \<in> set (events (snd (main empty_chain SWAP_AMOUNT_units world0)))"
proof -
  have h1: "\<forall>k. status empty_chain k = Succeeds" by (simp add: empty_chain_def)
  have d: "rpc_decimals empty_chain TOKEN_IN_ADDRESS = 18"
    "rpc_decimals empty_chain TOKEN_OUT_ADDRESS = 6"
    by (simp_all add: empty_chain_def TOKEN_IN_ADDRESS_def TOKEN_OUT_ADDRESS_def)
  have d1: "rpc_decimals empty_chain TOKEN_IN_ADDRESS \<le> 80"
    and d2: "rpc_decimals empty_chain TOKEN_OUT_ADDRESS \<le> 80"
    by (simp_all add: d)
  have h2: "SWAP_AMOUNT_units (rpc_decimals empty_chain TOKEN_IN_ADDRESS) = Some (10 * 10 ^ 18)"
    by (simp add: SWAP_AMOUNT_units_def d)
  have h3: "10 * 10 ^ 18 \<le> rpc_balanceOf empty_chain (length (events world0) + 9)
      TOKEN_IN_ADDRESS (signer_address empty_chain)"
    by (simp add: empty_chain_def)
  have h4: "allowances world0 TOKEN_IN_ADDRESS (signer_address empty_chain)
        SWAP_ROUTER_CONTRACT_ADDRESS < 10 * 10 ^ 18"
    by (simp add: world0_def)
  have h5: "\<forall>q \<in> set (lookups TOKEN_IN_ADDRESS TOKEN_OUT_ADDRESS). \<not> is_pool empty_chain q"
    by (simp add: lookups_def is_pool_def empty_chain_def)
  note t = main_NoPoolFound_after_approval
    [of empty_chain SWAP_AMOUNT_units "10 * 10 ^ 18" world0, OF h1 d1 d2 h2 h3 h4 h5]
  from t have "Send (Tx_approve TOKEN_IN_ADDRESS SWAP_ROUTER_CONTRACT_ADDRESS (10 * 10 ^ 18)) 100000
        \<in> set (events (snd (main empty_chain SWAP_AMOUNT_units world0)))"
    by simp
  with t h1 d1 d2 h2 h3 h4 h5 show ?thesis unfolding list_all_iff by blast
qed

end
